theory Spec2Isabelle
  imports Complex_Main "HOL-Library.AList" "HOL-Library.Code_Target_Numeral"
begin

section \<open>Python text and values\<close>

text \<open>
  A Python \<open>str\<close> is a sequence of Unicode code points; the invoice text is Cyrillic, so a
  string is modelled as the list of its code points (\<open>ord\<close> of each character). Dictionary
  keys of the source are ASCII and stay HOL strings.

  \<open>pyarg\<close> is an argument of \<open>_parse_number\<close>: \<open>None\<close>, a text or an integer. A table
  cell is a text or \<open>None\<close>, what the page extractor yields. \<open>pyval\<close> is a value stored
  in the result dictionaries: a text, an \<open>int\<close>, or a \<open>float\<close>. A finite float is the
  rational it equals (\<open>PFloat\<close>, always a binary64 value here, see \<open>round64\<close>) and
  \<open>PInf\<close> is \<open>float('inf')\<close>; no other float can arise from digits and dots. Python's
  \<open>0\<close> (an \<open>int\<close>) stays apart from the floats. \<open>positive v\<close> is the comparison \<open>v > 0\<close> and
  \<open>nonneg v\<close> is \<open>v >= 0\<close>, on numbers.
\<close>

type_synonym ustr = "nat list"

datatype pyarg = ANone | AStr ustr | AInt int

type_synonym cell = "ustr option"

datatype pyval = PStr ustr | PInt int | PFloat rat | PInf

datatype exn = ValueError | Unreadable

type_synonym dict = "(string \<times> pyval) list"

fun positive :: "pyval \<Rightarrow> bool" where
  "positive (PInt i) = (0 < i)"
| "positive (PFloat r) = (0 < r)"
| "positive PInf = True"
| "positive (PStr s) = False"


subsection \<open>Character classes of the Unicode database (version 14.0, CPython 3.11)\<close>

text \<open>
  \<open>nd_ranges\<close> lists the characters of category Nd (what \<open>\d\<close>, \<open>str.isdecimal\<close>, \<open>int\<close> and
  \<open>float\<close> accept as digits): every range starts at a digit zero and runs in tens.
  \<open>other_digit_ranges\<close> lists the characters that \<open>str.isdigit\<close> accepts beyond those
  (superscripts, circled digits, ...), which \<open>int\<close> rejects. \<open>space_ranges\<close> lists what
  \<open>str.isspace\<close>, \<open>str.strip\<close> and \<open>\s\<close> treat as whitespace.
\<close>

definition nd_ranges :: "(nat \<times> nat) list" where
  "nd_ranges = [(48, 57), (1632, 1641), (1776, 1785), (1984, 1993), (2406, 2415),
    (2534, 2543), (2662, 2671), (2790, 2799), (2918, 2927), (3046, 3055), (3174, 3183),
    (3302, 3311), (3430, 3439), (3558, 3567), (3664, 3673), (3792, 3801), (3872, 3881),
    (4160, 4169), (4240, 4249), (6112, 6121), (6160, 6169), (6470, 6479), (6608, 6617),
    (6784, 6793), (6800, 6809), (6992, 7001), (7088, 7097), (7232, 7241), (7248, 7257),
    (42528, 42537), (43216, 43225), (43264, 43273), (43472, 43481), (43504, 43513),
    (43600, 43609), (44016, 44025), (65296, 65305), (66720, 66729), (68912, 68921),
    (69734, 69743), (69872, 69881), (69942, 69951), (70096, 70105), (70384, 70393),
    (70736, 70745), (70864, 70873), (71248, 71257), (71360, 71369), (71472, 71481),
    (71904, 71913), (72016, 72025), (72784, 72793), (73040, 73049), (73120, 73129),
    (92768, 92777), (92864, 92873), (93008, 93017), (120782, 120831), (123200, 123209),
    (123632, 123641), (125264, 125273), (130032, 130041)]"

definition other_digit_ranges :: "(nat \<times> nat) list" where
  "other_digit_ranges = [(178, 179), (185, 185), (4969, 4977), (6618, 6618), (8304, 8304),
    (8308, 8313), (8320, 8329), (9312, 9320), (9332, 9340), (9352, 9360), (9450, 9450),
    (9461, 9469), (9471, 9471), (10102, 10110), (10112, 10120), (10122, 10130),
    (68160, 68163), (69216, 69224), (69714, 69722), (127232, 127242)]"

definition space_ranges :: "(nat \<times> nat) list" where
  "space_ranges = [(9, 13), (28, 32), (133, 133), (160, 160), (5760, 5760), (8192, 8202),
    (8232, 8233), (8239, 8239), (8287, 8287), (12288, 12288)]"

fun in_ranges :: "nat \<Rightarrow> (nat \<times> nat) list \<Rightarrow> bool" where
  "in_ranges c [] = False"
| "in_ranges c ((a, b) # rs) = ((a \<le> c \<and> c \<le> b) \<or> in_ranges c rs)"

fun range_start :: "nat \<Rightarrow> (nat \<times> nat) list \<Rightarrow> nat option" where
  "range_start c [] = None"
| "range_start c ((a, b) # rs) = (if a \<le> c \<and> c \<le> b then Some a else range_start c rs)"

definition is_decimal :: "nat \<Rightarrow> bool" where
  "is_decimal c = in_ranges c nd_ranges"

definition is_digit :: "nat \<Rightarrow> bool" where
  "is_digit c = (is_decimal c \<or> in_ranges c other_digit_ranges)"

definition is_space :: "nat \<Rightarrow> bool" where
  "is_space c = in_ranges c space_ranges"

definition digit_val :: "nat \<Rightarrow> nat" where
  "digit_val c = (case range_start c nd_ranges of Some a \<Rightarrow> (c - a) mod 10 | None \<Rightarrow> 0)"

subsection \<open>String methods\<close>

text \<open>\<open>s.strip()\<close>, \<open>sub in s\<close>, \<open>s.split(sep)\<close> for a one-character separator,
  \<open>s.replace(',', '.')\<close> and \<open>s.isdigit()\<close>.\<close>

definition strip :: "ustr \<Rightarrow> ustr" where
  "strip s = rev (dropWhile is_space (rev (dropWhile is_space s)))"

definition starts_with :: "ustr \<Rightarrow> ustr \<Rightarrow> bool" where
  "starts_with s p = (take (length p) s = p)"

fun contains :: "ustr \<Rightarrow> ustr \<Rightarrow> bool" where
  "contains [] p = (p = [])"
| "contains (c # cs) p = (starts_with (c # cs) p \<or> contains cs p)"

fun split_on :: "nat \<Rightarrow> ustr \<Rightarrow> ustr list" where
  "split_on sep [] = [[]]"
| "split_on sep (c # cs) =
    (if c = sep then [] # split_on sep cs
     else (case split_on sep cs of l # ls \<Rightarrow> (c # l) # ls | [] \<Rightarrow> [[c]]))"

definition comma_to_dot :: "ustr \<Rightarrow> ustr" where
  "comma_to_dot s = map (\<lambda>c. if c = 44 then 46 else c) s"

definition isdigit :: "ustr \<Rightarrow> bool" where
  "isdigit s = (s \<noteq> [] \<and> list_all is_digit s)"

subsection \<open>Conversions \<open>int(s)\<close>, \<open>float(s)\<close> and \<open>str(v)\<close>\<close>

text \<open>
  The source applies \<open>int\<close> and \<open>float\<close> to texts made of digits (and, for \<open>float\<close>, dots)
  only: a capture of \<open>\d+\<close> or \<open>[\d.,]+\<close> with commas replaced, or a cell that passed
  \<open>isdigit\<close>. On those texts the functions below are CPython 3.11's. \<open>int\<close> wants a
  non-empty run of decimal digits, at most \<open>max_str_digits\<close> of them (the default limit
  on the length of a decimal text, leading zeros counted). \<open>float\<close> wants decimal digits
  with at most one dot and at least one digit, of any length. Both raise \<open>ValueError\<close>
  otherwise. Signs, exponents, underscores and surrounding blanks cannot reach them and
  are not modelled (they give \<open>ValueError\<close> here).
\<close>

definition max_str_digits :: nat where
  "max_str_digits = 4300"

definition dec_val :: "ustr \<Rightarrow> nat" where
  "dec_val s = foldl (\<lambda>a c. 10 * a + digit_val c) 0 s"

definition py_int :: "ustr \<Rightarrow> exn + int" where
  "py_int s =
    (if s \<noteq> [] \<and> list_all is_decimal s \<and> length s \<le> max_str_digits
     then Inr (int (dec_val s)) else Inl ValueError)"

text \<open>
  \<open>float\<close> rounds the decimal to the nearest binary64 value, ties to even. \<open>round64 a b\<close>
  is that rounding of the fraction \<open>a / b\<close> (\<open>b\<close> positive). \<open>log2_floor a b\<close> is the
  exponent \<open>e\<close> with \<open>2^e \<le> a / b < 2^(e+1)\<close>, found from the bit lengths. The result is
  a multiple \<open>m\<close> of \<open>2^(E - 52)\<close>, where \<open>E\<close> is \<open>e\<close> but at least \<open>-1022\<close> (below that
  the values are subnormal, down to 0), and \<open>m\<close> is \<open>a / b / 2^(E - 52)\<close> rounded to the
  nearest integer, to the even one at a tie. A result of \<open>2^1024\<close> or more is \<open>inf\<close>.
\<close>

fun bit_length :: "nat \<Rightarrow> nat" where
  "bit_length n = (if n = 0 then 0 else Suc (bit_length (n div 2)))"

declare bit_length.simps [simp del]

definition log2_floor :: "nat \<Rightarrow> nat \<Rightarrow> int" where
  "log2_floor a b =
    (let d = int (bit_length a) - int (bit_length b) in
     if (if 0 \<le> d then b * 2 ^ nat d \<le> a else b \<le> a * 2 ^ nat (- d)) then d else d - 1)"

definition round_half_even :: "nat \<Rightarrow> nat \<Rightarrow> nat" where
  "round_half_even n d =
    (let q = n div d; r = n mod d in
     if 2 * r < d then q
     else if d < 2 * r then q + 1
     else if even q then q else q + 1)"

definition round64 :: "nat \<Rightarrow> nat \<Rightarrow> pyval" where
  "round64 a b =
    (if a = 0 then PFloat 0
     else
       (let E = max (log2_floor a b) (- 1022) in
        if 1023 < E then PInf
        else
          (let m = (if E \<le> 52 then round_half_even (a * 2 ^ nat (52 - E)) b
                    else round_half_even a (b * 2 ^ nat (E - 52)))
           in if E = 1023 \<and> m = 2 ^ 53 then PInf
              else if E \<le> 52 then PFloat (of_nat m / 2 ^ nat (52 - E))
              else PFloat (of_nat m * 2 ^ nat (E - 52)))))"

definition py_float :: "ustr \<Rightarrow> exn + pyval" where
  "py_float s =
    (let ip = takeWhile (\<lambda>c. c \<noteq> 46) s; rest = dropWhile (\<lambda>c. c \<noteq> 46) s in
     if rest = [] then
       (if ip \<noteq> [] \<and> list_all is_decimal ip then Inr (round64 (dec_val ip) 1)
        else Inl ValueError)
     else
       (let fp = tl rest in
        if list_all is_decimal ip \<and> list_all is_decimal fp \<and> (ip \<noteq> [] \<or> fp \<noteq> [])
        then Inr (round64 (dec_val (ip @ fp)) (10 ^ length fp))
        else Inl ValueError))"

text \<open>
  \<open>truthy v\<close> is Python's \<open>bool(v)\<close> and \<open>py_str v\<close> is \<open>str(v)\<close>: \<open>str(None)\<close> is the text
  \<open>None\<close>, and \<open>str\<close> of an integer is its decimal text, or \<open>ValueError\<close> when that text
  would have more than \<open>max_str_digits\<close> digits. For a cell, \<open>cell_truthy\<close> and
  \<open>cell_str\<close> are the same two functions (a cell is never an integer, so \<open>str\<close> cannot
  raise), \<open>or_empty c\<close> is the idiom \<open>c or ''\<close>, and \<open>of_cell\<close> hands a cell to
  \<open>_parse_number\<close>.
\<close>

fun nat_digits :: "nat \<Rightarrow> nat \<Rightarrow> ustr" where
  "nat_digits 0 n = []"
| "nat_digits (Suc fuel) n =
    (if n < 10 then [48 + n] else nat_digits fuel (n div 10) @ [48 + n mod 10])"

definition str_of_int :: "int \<Rightarrow> ustr" where
  "str_of_int i = (if i < 0 then 45 # nat_digits (Suc (nat (- i))) (nat (- i))
                   else nat_digits (Suc (nat i)) (nat i))"

fun truthy :: "pyarg \<Rightarrow> bool" where
  "truthy ANone = False"
| "truthy (AStr s) = (s \<noteq> [])"
| "truthy (AInt i) = (i \<noteq> 0)"

fun py_str :: "pyarg \<Rightarrow> exn + ustr" where
  "py_str ANone = Inr [78, 111, 110, 101]"
| "py_str (AStr s) = Inr s"
| "py_str (AInt i) =
    (if \<bar>i\<bar> < 10 ^ max_str_digits then Inr (str_of_int i) else Inl ValueError)"

fun cell_truthy :: "cell \<Rightarrow> bool" where
  "cell_truthy None = False"
| "cell_truthy (Some s) = (s \<noteq> [])"

fun cell_str :: "cell \<Rightarrow> ustr" where
  "cell_str None = [78, 111, 110, 101]"
| "cell_str (Some s) = s"

definition or_empty :: "cell \<Rightarrow> cell" where
  "or_empty c = (if cell_truthy c then c else Some [])"

fun of_cell :: "cell \<Rightarrow> pyarg" where
  "of_cell None = ANone"
| "of_cell (Some s) = AStr s"

definition ascii :: "string \<Rightarrow> ustr" where
  "ascii s = map of_char s"

section \<open>Regular expressions of the \<open>re\<close> module\<close>

text \<open>
  The patterns of the source use literals, character classes, the dot, concatenation,
  greedy \<open>*\<close> and \<open>+\<close>, the lazy \<open>+?\<close> and groups. \<open>ms r st\<close> lists every way \<open>r\<close> can
  match at the front of the remaining text, in the order in which the backtracking
  matcher of \<open>re\<close> tries them, so the head of the list is the match Python reports. A state
  is the remaining text with the captures made so far (latest first).

  Every repeated sub-pattern of the source consumes at least one character, so a
  repetition makes at most as many rounds as the text is long: that length is the fuel
  of \<open>rep_greedy\<close> and \<open>rep_lazy\<close>.
\<close>

datatype citem = CChr nat | CDigit | CSpace

fun citem_ok :: "nat \<Rightarrow> citem \<Rightarrow> bool" where
  "citem_ok c (CChr d) = (c = d)"
| "citem_ok c CDigit = is_decimal c"
| "citem_ok c CSpace = is_space c"

definition in_class :: "citem list \<Rightarrow> nat \<Rightarrow> bool" where
  "in_class items c = list_ex (citem_ok c) items"

datatype re =
    Lit ustr
  | Cls "citem list"
  | NCls "citem list"
  | Dot
  | Cat re re
  | Star re
  | Plus re
  | LazyPlus re
  | Grp nat re

type_synonym mstate = "ustr \<times> (nat \<times> ustr) list"

primrec rep_greedy :: "nat \<Rightarrow> (mstate \<Rightarrow> mstate list) \<Rightarrow> mstate \<Rightarrow> mstate list" where
  "rep_greedy 0 f st = [st]"
| "rep_greedy (Suc n) f st = concat (map (rep_greedy n f) (f st)) @ [st]"

primrec rep_lazy :: "nat \<Rightarrow> (mstate \<Rightarrow> mstate list) \<Rightarrow> mstate \<Rightarrow> mstate list" where
  "rep_lazy 0 f st = [st]"
| "rep_lazy (Suc n) f st = st # concat (map (rep_lazy n f) (f st))"

definition one_char :: "(nat \<Rightarrow> bool) \<Rightarrow> mstate \<Rightarrow> mstate list" where
  "one_char P st = (case fst st of [] \<Rightarrow> [] | c # cs \<Rightarrow> if P c then [(cs, snd st)] else [])"

primrec ms :: "re \<Rightarrow> mstate \<Rightarrow> mstate list" where
  "ms (Lit l) st = (if starts_with (fst st) l then [(drop (length l) (fst st), snd st)] else [])"
| "ms (Cls items) st = one_char (in_class items) st"
| "ms (NCls items) st = one_char (\<lambda>c. \<not> in_class items c) st"
| "ms Dot st = one_char (\<lambda>c. c \<noteq> 10) st"
| "ms (Cat a b) st = concat (map (ms b) (ms a st))"
| "ms (Star r) st = rep_greedy (length (fst st)) (ms r) st"
| "ms (Plus r) st = concat (map (\<lambda>st'. rep_greedy (length (fst st')) (ms r) st') (ms r st))"
| "ms (LazyPlus r) st = concat (map (\<lambda>st'. rep_lazy (length (fst st')) (ms r) st') (ms r st))"
| "ms (Grp n r) st =
    map (\<lambda>st'. (fst st', (n, take (length (fst st) - length (fst st')) (fst st)) # snd st'))
        (ms r st)"

definition cats :: "re list \<Rightarrow> re" where
  "cats rs = foldr Cat rs (Lit [])"

text \<open>A match object: \<open>whole\<close> is \<open>group()\<close>, \<open>group m n\<close> is \<open>m.group(n)\<close> (every group
  of the source's patterns takes part in every match, so it is always some text).\<close>

record rmatch =
  whole :: ustr
  caps :: "(nat \<times> ustr) list"

definition group :: "rmatch \<Rightarrow> nat \<Rightarrow> ustr" where
  "group m n = (case map_of (caps m) n of Some t \<Rightarrow> t | None \<Rightarrow> [])"

definition re_match :: "re \<Rightarrow> ustr \<Rightarrow> rmatch option" where
  "re_match r s =
    (case ms r (s, []) of
       [] \<Rightarrow> None
     | st # _ \<Rightarrow> Some \<lparr>whole = take (length s - length (fst st)) s, caps = snd st\<rparr>)"

fun re_search :: "re \<Rightarrow> ustr \<Rightarrow> rmatch option" where
  "re_search r [] = re_match r []"
| "re_search r (c # cs) =
    (case re_match r (c # cs) of Some m \<Rightarrow> Some m | None \<Rightarrow> re_search r cs)"

section \<open>Literals of \<open>pdf_parser.py\<close>\<close>

text \<open>
  The Cyrillic markers of the source, as code points. In Latin transliteration:
  \<open>mk_invoice\<close> is "Detalizatsiya k schetu N", \<open>mk_company\<close> "Ispolnitel:",
  \<open>mk_customer\<close> "Zakazchik:", \<open>lit_inn\<close> "INN", \<open>lit_address\<close> "Adres:", \<open>lit_tel\<close> "tel.",
  \<open>lit_ot\<close> "ot", \<open>lit_do\<close> "do", \<open>lit_numero\<close> the numero sign, \<open>lit_name_header\<close>
  "Naimenovanie", \<open>mk_storage\<close> "Khranenie tovarov ot", \<open>lit_m3\<close> "m" with superscript three,
  \<open>rouble\<close> the rouble sign, \<open>mk_reception\<close> "Priemka tovara na sklad", \<open>lit_reception\<close>
  "Priemka tovara na sklad i razmeshchenie", \<open>lit_pcs\<close> "sht.", \<open>mk_shipment\<close> "Otgruzka FBO",
  \<open>lit_priemka\<close> "Priemka", \<open>mk_total\<close> "Itogo k oplate:", \<open>mk_vat\<close> "V tom chisle NDS:",
  \<open>mk_items\<close> "Vsego naimenovanii", \<open>lit_na_summu\<close> "na summu".
\<close>

definition mk_invoice :: ustr where
  "mk_invoice = [1044, 1077, 1090, 1072, 1083, 1080, 1079, 1072, 1094, 1080, 1103, 32, 1082, 32,
    1089, 1095, 1077, 1090, 1091, 32, 8470]"

definition mk_company :: ustr where
  "mk_company = [1048, 1089, 1087, 1086, 1083, 1085, 1080, 1090, 1077, 1083, 1100, 58]"

definition mk_customer :: ustr where
  "mk_customer = [1047, 1072, 1082, 1072, 1079, 1095, 1080, 1082, 58]"

definition lit_inn :: ustr where
  "lit_inn = [1048, 1053, 1053]"

definition lit_address :: ustr where
  "lit_address = [1040, 1076, 1088, 1077, 1089, 58]"

definition lit_tel :: ustr where
  "lit_tel = [1090, 1077, 1083, 46]"

definition lit_ot :: ustr where
  "lit_ot = [1086, 1090]"

definition lit_do :: ustr where
  "lit_do = [1076, 1086]"

definition lit_numero :: ustr where
  "lit_numero = [8470]"

definition lit_name_header :: ustr where
  "lit_name_header = [1053, 1072, 1080, 1084, 1077, 1085, 1086, 1074, 1072, 1085, 1080, 1077]"

definition mk_storage :: ustr where
  "mk_storage = [1061, 1088, 1072, 1085, 1077, 1085, 1080, 1077, 32, 1090, 1086, 1074, 1072,
    1088, 1086, 1074, 32, 1086, 1090]"

definition lit_m3 :: ustr where
  "lit_m3 = [1084, 179]"

definition rouble :: nat where
  "rouble = 8381"

definition mk_reception :: ustr where
  "mk_reception = [1055, 1088, 1080, 1077, 1084, 1082, 1072, 32, 1090, 1086, 1074, 1072, 1088,
    1072, 32, 1085, 1072, 32, 1089, 1082, 1083, 1072, 1076]"

definition lit_reception :: ustr where
  "lit_reception = mk_reception @ [32, 1080, 32, 1088, 1072, 1079, 1084, 1077, 1097, 1077, 1085,
    1080, 1077]"

definition lit_pcs :: ustr where
  "lit_pcs = [1096, 1090, 46]"

definition mk_shipment :: ustr where
  "mk_shipment = [1054, 1090, 1075, 1088, 1091, 1079, 1082, 1072, 32, 70, 66, 79]"

definition lit_priemka :: ustr where
  "lit_priemka = [1055, 1088, 1080, 1077, 1084, 1082, 1072]"

definition mk_total :: ustr where
  "mk_total = [1048, 1090, 1086, 1075, 1086, 32, 1082, 32, 1086, 1087, 1083, 1072, 1090, 1077, 58]"

definition mk_vat :: ustr where
  "mk_vat = [1042, 32, 1090, 1086, 1084, 32, 1095, 1080, 1089, 1083, 1077, 32, 1053, 1044, 1057, 58]"

definition mk_items :: ustr where
  "mk_items = [1042, 1089, 1077, 1075, 1086, 32, 1085, 1072, 1080, 1084, 1077, 1085, 1086, 1074,
    1072, 1085, 1080, 1081]"

definition lit_na_summu :: ustr where
  "lit_na_summu = [1085, 1072, 32, 1089, 1091, 1084, 1084, 1091]"

subsection \<open>The patterns\<close>

text \<open>Shorthands: \<open>sp\<close> is \<open>\s\<close>, \<open>digits\<close> is \<open>\d+\<close>, \<open>date_tok\<close> is \<open>[\d.]+\<close> and
  \<open>amount_tok\<close> is \<open>[\d.,]+\<close>; code point 44 is the comma, 45 the hyphen, 46 the dot.\<close>

definition sp :: re where
  "sp = Cls [CSpace]"

definition digits :: re where
  "digits = Plus (Cls [CDigit])"

definition date_tok :: re where
  "date_tok = Plus (Cls [CDigit, CChr 46])"

definition amount_tok :: re where
  "amount_tok = Plus (Cls [CDigit, CChr 46, CChr 44])"

definition invoice_re :: re where
  "invoice_re = cats [Lit lit_numero, Star sp, Grp 1 (Plus (Cls [CDigit, CChr 45])), Star sp,
     Lit lit_ot, Star sp, Grp 2 date_tok]"

definition party_re :: "ustr \<Rightarrow> re" where
  "party_re marker = cats [Lit marker, Star sp, Grp 1 (LazyPlus Dot), Star sp, Lit [44], Star sp,
     Lit lit_inn, Star sp, Grp 2 digits]"

definition address_re :: re where
  "address_re = cats [Lit lit_address, Star sp,
     Grp 1 (Cat (Plus (NCls [CChr 44])) (Star (Cat (Lit [44]) (Plus (NCls [CChr 44]))))),
     Star sp, Lit [44], Star sp, Lit lit_tel, Star sp,
     Grp 2 (Plus (Cls [CChr 43, CDigit, CSpace, CChr 40, CChr 41, CChr 45]))]"

definition storage_re :: re where
  "storage_re = cats [Lit mk_storage, Star sp, Grp 1 date_tok, Star sp, Lit lit_do, Star sp,
     Grp 2 date_tok, Star sp, Grp 3 amount_tok, Star sp, Lit lit_m3, Star sp, Grp 4 amount_tok,
     Star sp, Lit [rouble], Star sp, Grp 5 amount_tok, Star sp, Lit [rouble]]"

definition reception_re :: re where
  "reception_re = cats [Lit lit_reception, Star sp, Grp 1 digits, Star sp, Lit lit_pcs, Star sp,
     Grp 2 amount_tok, Star sp, Lit [rouble], Star sp, Grp 3 amount_tok, Star sp, Lit [rouble]]"

definition shipment_re :: re where
  "shipment_re = cats [Lit mk_shipment, Star sp, Grp 1 digits, Star sp, Lit lit_ot, Star sp,
     Grp 2 date_tok]"

definition recop_test_re :: re where
  "recop_test_re = cats [Lit lit_priemka, Plus sp, digits, Plus sp, Lit lit_ot]"

definition recop_re :: re where
  "recop_re = cats [Lit lit_priemka, Plus sp, Grp 1 digits, Plus sp, Lit lit_ot, Plus sp,
     Grp 2 date_tok]"

definition amount_re :: "ustr \<Rightarrow> re" where
  "amount_re marker = cats [Lit marker, Star sp, Grp 1 amount_tok, Star sp, Lit [rouble]]"

definition items_re :: re where
  "items_re = cats [Lit mk_items, Star sp, Grp 1 digits, Star sp, Lit lit_na_summu, Star sp,
     Grp 2 amount_tok, Star sp, Lit [rouble]]"

section \<open>The parser state\<close>

text \<open>\<open>self.data\<close> of \<open>InvoiceParser\<close>. A dictionary is an association list in insertion
  order; \<open>AList.update\<close> is \<open>d[k] = v\<close> (overwrite in place, or append). \<open>new_parser now\<close> is
  \<open>__init__\<close>, where \<open>now\<close> stands for \<open>datetime.now().isoformat()\<close>.\<close>

record pdata =
  invoice_info :: dict
  company_info :: dict
  customer_info :: dict
  line_items :: "dict list"
  totals :: dict
  parsed_at :: ustr

definition new_parser :: "ustr \<Rightarrow> pdata" where
  "new_parser now = \<lparr>invoice_info = [], company_info = [], customer_info = [], line_items = [],
     totals = [], parsed_at = now\<rparr>"

section \<open>\<open>_parse_number\<close>\<close>

text \<open>\<open>re.sub(r'[...]', '', s)\<close> with a one-character class deletes every character of the
  class. The \<open>ValueError\<close> of \<open>float\<close> is caught inside; that of \<open>str(value)\<close>, which only
  an integer argument of more than \<open>max_str_digits\<close> digits can raise, is not.\<close>

definition re_sub_delete :: "citem list \<Rightarrow> ustr \<Rightarrow> ustr" where
  "re_sub_delete items s = filter (\<lambda>c. \<not> in_class items c) s"

definition parse_number :: "pyarg \<Rightarrow> exn + pyval" where
  "parse_number v =
    (if \<not> truthy v then Inr (PInt 0)
     else
       (case py_str v of
          Inl e \<Rightarrow> Inl e
        | Inr s \<Rightarrow>
           (let str_value = strip s;
                str_value = re_sub_delete [CChr rouble, CSpace] str_value;
                str_value = comma_to_dot str_value
            in case re_search date_tok str_value of
                 None \<Rightarrow> Inr (PInt 0)
               | Some number_match \<Rightarrow>
                   (case py_float (whole number_match) of
                      Inr x \<Rightarrow> Inr x
                    | Inl e \<Rightarrow> Inr (PInt 0)))))"

section \<open>\<open>_parse_tables\<close>\<close>

text \<open>
  A table is a list of rows, a row a list of cells. \<open>parse_row\<close> is the body of the inner
  loop and \<open>row_item\<close> the dictionary built inside its \<open>try\<close>, in the order the source
  evaluates it. With five cells or more, \<open>row[1]\<close> to \<open>row[4]\<close> exist, so no \<open>IndexError\<close>
  can arise; a \<open>ValueError\<close> (of \<open>int(row[0])\<close>) is caught and the row skipped.
\<close>

definition cell_text :: "cell \<Rightarrow> ustr" where
  "cell_text c = strip (cell_str (or_empty c))"

definition is_header_row :: "cell list \<Rightarrow> bool" where
  "is_header_row row =
     list_ex (\<lambda>header. contains (cell_str (or_empty (row ! 0))) header)
       [lit_numero, lit_name_header]"

definition number_at :: "cell list \<Rightarrow> nat \<Rightarrow> exn + pyval" where
  "number_at row i = (if length row > i then parse_number (of_cell (row ! i)) else Inr (PInt 0))"

definition row_item :: "cell list \<Rightarrow> exn + dict" where
  "row_item row =
    (case py_int (cell_str (row ! 0)) of Inl e \<Rightarrow> Inl e | Inr n \<Rightarrow>
     case number_at row 2 of Inl e \<Rightarrow> Inl e | Inr quantity \<Rightarrow>
     case number_at row 4 of Inl e \<Rightarrow> Inl e | Inr price \<Rightarrow>
     case number_at row 5 of Inl e \<Rightarrow> Inl e | Inr tot \<Rightarrow>
       Inr [(''row_number'', PInt n),
            (''description'', PStr (cell_text (row ! 1))),
            (''quantity'', quantity),
            (''unit'', if length row > 3 then PStr (cell_text (row ! 3)) else PStr []),
            (''price_per_unit'', price),
            (''total_amount'', tot)])"

definition dict_get :: "dict \<Rightarrow> string \<Rightarrow> pyval" where
  "dict_get d k = (case map_of d k of Some v \<Rightarrow> v | None \<Rightarrow> PInt 0)"

fun val_truthy :: "pyval \<Rightarrow> bool" where
  "val_truthy (PStr s) = (s \<noteq> [])"
| "val_truthy (PInt i) = (i \<noteq> 0)"
| "val_truthy (PFloat r) = (r \<noteq> 0)"
| "val_truthy PInf = True"

definition parse_row :: "pdata \<Rightarrow> cell list \<Rightarrow> pdata" where
  "parse_row data row =
    (if row \<noteq> [] \<and> length row \<ge> 5 then
       (if is_header_row row then data
        else if cell_truthy (row ! 0) \<and> isdigit (cell_str (row ! 0)) then
          (case row_item row of
             Inl e \<Rightarrow> data
           | Inr item \<Rightarrow>
               if val_truthy (dict_get item ''description'')
                  \<and> positive (dict_get item ''total_amount'')
               then data\<lparr>line_items :=
                      line_items data @ [AList.update ''type'' (PStr (ascii ''table_item'')) item]\<rparr>
               else data)
        else data)
     else data)"

definition parse_tables :: "pdata \<Rightarrow> cell list list list \<Rightarrow> pdata" where
  "parse_tables data tables = foldl (\<lambda>d table. foldl parse_row d table) data tables"

section \<open>\<open>_parse_header_info\<close>\<close>

text \<open>Every loop of the source over \<open>text.split('\n')\<close> strips the line first; the three
  header checks are independent \<open>if\<close>s, run in order on the same line.\<close>

definition set_party :: "dict \<Rightarrow> rmatch \<Rightarrow> dict" where
  "set_party d m =
     AList.update ''inn'' (PStr (group m 2)) (AList.update ''name'' (PStr (strip (group m 1))) d)"

definition parse_header_line :: "pdata \<Rightarrow> ustr \<Rightarrow> pdata" where
  "parse_header_line data raw =
    (let line = strip raw;
         d1 = (if contains line mk_invoice then
                 (case re_search invoice_re line of
                    Some m \<Rightarrow> data\<lparr>invoice_info :=
                       AList.update ''date'' (PStr (group m 2))
                         (AList.update ''number'' (PStr (group m 1)) (invoice_info data))\<rparr>
                  | None \<Rightarrow> data)
               else data);
         d2 = (if contains line mk_company then
                 (case re_search (party_re mk_company) line of
                    Some m \<Rightarrow> d1\<lparr>company_info := set_party (company_info d1) m\<rparr>
                  | None \<Rightarrow> d1)
               else d1)
     in if contains line mk_customer then
          (let d3 = (case re_search (party_re mk_customer) line of
                       Some m \<Rightarrow> d2\<lparr>customer_info := set_party (customer_info d2) m\<rparr>
                     | None \<Rightarrow> d2)
           in case re_search address_re line of
                Some m \<Rightarrow> d3\<lparr>customer_info :=
                   AList.update ''phone'' (PStr (strip (group m 2)))
                     (AList.update ''address'' (PStr (strip (group m 1))) (customer_info d3))\<rparr>
              | None \<Rightarrow> d3)
        else d2)"

definition parse_header_info :: "pdata \<Rightarrow> ustr \<Rightarrow> pdata" where
  "parse_header_info data text = foldl parse_header_line data (split_on 10 text)"

section \<open>\<open>_parse_line_items\<close>\<close>

text \<open>
  The conversions \<open>float(g.replace(',', '.'))\<close> and \<open>int(g)\<close> of this method sit outside any
  \<open>try\<close>: their \<open>ValueError\<close> leaves the method, so a step returns \<open>exn + pdata\<close> and the
  loop \<open>fold_exn\<close> stops at the first exception. \<open>parse_item_line\<close> is the loop body with
  its \<open>if\<close>/\<open>elif\<close> chain.
\<close>

fun fold_exn :: "('s \<Rightarrow> 'a \<Rightarrow> exn + 's) \<Rightarrow> 's \<Rightarrow> 'a list \<Rightarrow> exn + 's" where
  "fold_exn f s [] = Inr s"
| "fold_exn f s (x # xs) = (case f s x of Inl e \<Rightarrow> Inl e | Inr s' \<Rightarrow> fold_exn f s' xs)"

definition amount :: "ustr \<Rightarrow> exn + pyval" where
  "amount g = py_float (comma_to_dot g)"

definition append_item :: "pdata \<Rightarrow> dict \<Rightarrow> pdata" where
  "append_item data item = data\<lparr>line_items := line_items data @ [item]\<rparr>"

definition storage_item :: "pdata \<Rightarrow> rmatch \<Rightarrow> exn + pdata" where
  "storage_item data m =
    (case amount (group m 3) of Inl e \<Rightarrow> Inl e | Inr quantity \<Rightarrow>
     case amount (group m 4) of Inl e \<Rightarrow> Inl e | Inr price \<Rightarrow>
     case amount (group m 5) of Inl e \<Rightarrow> Inl e | Inr tot \<Rightarrow>
       Inr (append_item data
         [(''type'', PStr (ascii ''storage'')),
          (''description'', PStr (mk_storage @ [32] @ group m 1 @ [32] @ lit_do @ [32] @ group m 2)),
          (''from_date'', PStr (group m 1)),
          (''to_date'', PStr (group m 2)),
          (''quantity'', quantity),
          (''unit'', PStr lit_m3),
          (''price_per_unit'', price),
          (''total_amount'', tot)]))"

definition reception_item :: "pdata \<Rightarrow> rmatch \<Rightarrow> exn + pdata" where
  "reception_item data m =
    (case py_int (group m 1) of Inl e \<Rightarrow> Inl e | Inr quantity \<Rightarrow>
     case amount (group m 2) of Inl e \<Rightarrow> Inl e | Inr price \<Rightarrow>
     case amount (group m 3) of Inl e \<Rightarrow> Inl e | Inr tot \<Rightarrow>
       Inr (append_item data
         [(''type'', PStr (ascii ''reception'')),
          (''description'', PStr lit_reception),
          (''quantity'', PInt quantity),
          (''unit'', PStr lit_pcs),
          (''price_per_unit'', price),
          (''total_amount'', tot)]))"

definition shipment_item :: "pdata \<Rightarrow> rmatch \<Rightarrow> pdata" where
  "shipment_item data m =
     append_item data
       [(''type'', PStr (ascii ''shipment'')),
        (''description'', PStr (mk_shipment @ [32] @ group m 1)),
        (''fbo_number'', PStr (group m 1)),
        (''date'', PStr (group m 2)),
        (''total_amount'', PInt 0)]"

definition recop_item :: "pdata \<Rightarrow> rmatch \<Rightarrow> pdata" where
  "recop_item data m =
     append_item data
       [(''type'', PStr (ascii ''reception_operation'')),
        (''description'', PStr (lit_priemka @ [32] @ group m 1)),
        (''reception_number'', PStr (group m 1)),
        (''date'', PStr (group m 2)),
        (''total_amount'', PInt 0)]"

definition parse_item_line :: "pdata \<Rightarrow> ustr \<Rightarrow> exn + pdata" where
  "parse_item_line data raw =
    (let line = strip raw in
     if contains line mk_storage then
       (case re_search storage_re line of
          Some m \<Rightarrow> storage_item data m
        | None \<Rightarrow> Inr data)
     else if contains line mk_reception then
       (case re_search reception_re line of
          Some m \<Rightarrow> reception_item data m
        | None \<Rightarrow> Inr data)
     else if contains line mk_shipment then
       (case re_search shipment_re line of
          Some m \<Rightarrow> Inr (shipment_item data m)
        | None \<Rightarrow> Inr data)
     else if re_match recop_test_re line \<noteq> None then
       (case re_search recop_re line of
          Some m \<Rightarrow> Inr (recop_item data m)
        | None \<Rightarrow> Inr data)
     else Inr data)"

definition parse_line_items :: "pdata \<Rightarrow> ustr \<Rightarrow> exn + pdata" where
  "parse_line_items data text = fold_exn parse_item_line data (split_on 10 text)"

section \<open>\<open>_parse_totals\<close>\<close>

definition set_total :: "string \<Rightarrow> pdata \<Rightarrow> rmatch \<Rightarrow> exn + pdata" where
  "set_total key data m =
    (case amount (group m 1) of
       Inl e \<Rightarrow> Inl e
     | Inr x \<Rightarrow> Inr (data\<lparr>totals := AList.update key x (totals data)\<rparr>))"

definition set_items_total :: "pdata \<Rightarrow> rmatch \<Rightarrow> exn + pdata" where
  "set_items_total data m =
    (case py_int (group m 1) of Inl e \<Rightarrow> Inl e | Inr n \<Rightarrow>
     case amount (group m 2) of Inl e \<Rightarrow> Inl e | Inr x \<Rightarrow>
       Inr (data\<lparr>totals :=
         AList.update ''total_sum'' x
           (AList.update ''total_items'' (PInt n) (totals data))\<rparr>))"

definition parse_total_line :: "pdata \<Rightarrow> ustr \<Rightarrow> exn + pdata" where
  "parse_total_line data raw =
    (let line = strip raw in
     if contains line mk_total then
       (case re_search (amount_re mk_total) line of
          Some m \<Rightarrow> set_total ''total_amount'' data m
        | None \<Rightarrow> Inr data)
     else if contains line mk_vat then
       (case re_search (amount_re mk_vat) line of
          Some m \<Rightarrow> set_total ''vat_amount'' data m
        | None \<Rightarrow> Inr data)
     else if contains line mk_items then
       (case re_search items_re line of
          Some m \<Rightarrow> set_items_total data m
        | None \<Rightarrow> Inr data)
     else Inr data)"

definition parse_totals :: "pdata \<Rightarrow> ustr \<Rightarrow> exn + pdata" where
  "parse_totals data text = fold_exn parse_total_line data (split_on 10 text)"

section \<open>\<open>parse\<close>\<close>

text \<open>
  The document handle: \<open>None\<close> when \<open>pdfplumber.open\<close> cannot open or read the file, else the
  pages, each with the result of \<open>extract_text()\<close> (possibly \<open>None\<close> or empty) and of
  \<open>extract_tables()\<close>. The page loop gathers the text and parses the tables of each page
  as it goes; header, text-mode items and totals follow on the gathered text. Printing is
  left out.
\<close>

record page =
  page_text :: "ustr option"
  page_tables :: "cell list list list"

definition extract_page :: "ustr \<times> pdata \<Rightarrow> page \<Rightarrow> ustr \<times> pdata" where
  "extract_page acc pg =
    (let full_text = (if cell_truthy (page_text pg) then fst acc @ the (page_text pg) @ [10]
                      else fst acc)
     in (full_text,
         if page_tables pg \<noteq> [] then parse_tables (snd acc) (page_tables pg) else snd acc))"

definition parse :: "pdata \<Rightarrow> page list option \<Rightarrow> exn + pdata" where
  "parse data doc =
    (case doc of
       None \<Rightarrow> Inl Unreadable
     | Some pages \<Rightarrow>
         (let acc = foldl extract_page ([], data) pages;
              d1 = parse_header_info (snd acc) (fst acc)
          in case parse_line_items d1 (fst acc) of
               Inl e \<Rightarrow> Inl e
             | Inr d2 \<Rightarrow> parse_totals d2 (fst acc)))"

section \<open>Notions of the specification\<close>

subsection \<open>Russian-locale numeric texts\<close>

text \<open>
  The specification's well-formed numeric text: digit groups joined by a grouping mark
  (nothing, a dot or one blank), an optional fraction after a comma, and a tail of blanks
  and rouble signs. \<open>ru_value\<close> is the number such a text denotes. Group sizes are left
  free, so the texts with groups of three are among them.
\<close>

fun join :: "ustr \<Rightarrow> ustr list \<Rightarrow> ustr" where
  "join sep [] = []"
| "join sep [g] = g"
| "join sep (g # h # gs) = g @ sep @ join sep (h # gs)"

definition ru_text :: "ustr list \<Rightarrow> ustr \<Rightarrow> ustr \<Rightarrow> ustr \<Rightarrow> ustr" where
  "ru_text groups sep fr tail = join sep groups @ (if fr = [] then [] else 44 # fr) @ tail"

definition ru_wellformed :: "ustr list \<Rightarrow> ustr \<Rightarrow> ustr \<Rightarrow> ustr \<Rightarrow> bool" where
  "ru_wellformed groups sep fr tail =
    (groups \<noteq> [] \<and> list_all (\<lambda>g. g \<noteq> [] \<and> list_all is_decimal g) groups
     \<and> list_all is_decimal fr
     \<and> (sep = [] \<or> sep = [46] \<or> (length sep = 1 \<and> list_all is_space sep))
     \<and> list_all (\<lambda>c. c = rouble \<or> is_space c) tail)"

definition ru_value :: "ustr list \<Rightarrow> ustr \<Rightarrow> rat" where
  "ru_value groups fr = of_nat (dec_val (concat groups)) + of_nat (dec_val fr) / 10 ^ length fr"

subsection \<open>Numeric and non-numeric arguments\<close>


definition within_str_limit :: "pyarg \<Rightarrow> bool" where
  "within_str_limit v = (case py_str v of Inr s \<Rightarrow> True | Inl e \<Rightarrow> False)"

subsection \<open>Table rows\<close>

text \<open>
  \<open>claimed_row_emits\<close> is the condition under which the specification says a row yields
  an item: five cells or more, no header marker in the first cell, the first cell all
  digits (\<open>str.isdigit\<close>), a non-empty trimmed description, and a positive normalised sixth
  cell (taken as 0 when the row has no sixth cell). \<open>cell_number c\<close> is the normalised
  number of a cell, and \<open>table_item\<close> is the item the source builds for a row.
\<close>

definition first_cell :: "cell list \<Rightarrow> ustr" where
  "first_cell row = cell_str (or_empty (row ! 0))"

definition cell_number :: "cell \<Rightarrow> pyval" where
  "cell_number c = (case parse_number (of_cell c) of Inr v \<Rightarrow> v | Inl e \<Rightarrow> PInt 0)"

definition sixth_cell_number :: "cell list \<Rightarrow> pyval" where
  "sixth_cell_number row = (if length row > 5 then cell_number (row ! 5) else PInt 0)"

definition claimed_row_emits :: "cell list \<Rightarrow> bool" where
  "claimed_row_emits row =
    (5 \<le> length row \<and> \<not> is_header_row row \<and> isdigit (first_cell row)
     \<and> cell_text (row ! 1) \<noteq> [] \<and> positive (sixth_cell_number row))"

definition table_item :: "cell list \<Rightarrow> dict" where
  "table_item row =
     AList.update ''type'' (PStr (ascii ''table_item''))
       (case row_item row of Inr item \<Rightarrow> item | Inl e \<Rightarrow> [])"

subsection \<open>Text-mode precedence\<close>


subsection \<open>Totals markers\<close>

text \<open>
  \<open>marker_fires marker pat lines\<close> is the specification's condition for a totals field:
  some line contains the marker and the capture pattern matches on it. The three
  \<open>*_fires\<close> predicates add what the \<open>if\<close>/\<open>elif\<close> chain of the source adds: no marker of
  an earlier branch on the same line. \<open>has_key\<close> says that a field is set.
\<close>

definition marker_fires :: "ustr \<Rightarrow> re \<Rightarrow> ustr list \<Rightarrow> bool" where
  "marker_fires marker pat lines =
     list_ex (\<lambda>raw. contains (strip raw) marker \<and> re_search pat (strip raw) \<noteq> None) lines"

definition total_fires :: "ustr \<Rightarrow> bool" where
  "total_fires raw =
     (contains (strip raw) mk_total \<and> re_search (amount_re mk_total) (strip raw) \<noteq> None)"

definition vat_fires :: "ustr \<Rightarrow> bool" where
  "vat_fires raw =
     (\<not> contains (strip raw) mk_total \<and> contains (strip raw) mk_vat
      \<and> re_search (amount_re mk_vat) (strip raw) \<noteq> None)"

definition items_fires :: "ustr \<Rightarrow> bool" where
  "items_fires raw =
     (\<not> contains (strip raw) mk_total \<and> \<not> contains (strip raw) mk_vat
      \<and> contains (strip raw) mk_items \<and> re_search items_re (strip raw) \<noteq> None)"

definition has_key :: "dict \<Rightarrow> string \<Rightarrow> bool" where
  "has_key d k = (map_of d k \<noteq> None)"

text \<open>\<open>line_sets_key k raw\<close>: the line \<open>raw\<close> sets the totals field \<open>k\<close>.\<close>

definition line_sets_key :: "string \<Rightarrow> ustr \<Rightarrow> bool" where
  "line_sets_key k raw =
     ((k = ''total_amount'' \<and> total_fires raw) \<or> (k = ''vat_amount'' \<and> vat_fires raw)
      \<or> ((k = ''total_items'' \<or> k = ''total_sum'') \<and> items_fires raw))"

subsection \<open>What each extraction mode yields on its own\<close>

text \<open>
  \<open>doc_text\<close> is the text the page loop gathers and \<open>doc_tables\<close> the tables it meets, in
  page order. \<open>table_items\<close> and \<open>text_items\<close> are the items table mode and text mode
  produce when started from an empty result. \<open>forget_time\<close> blanks the timestamp.
\<close>

definition doc_text :: "page list \<Rightarrow> ustr" where
  "doc_text pages =
     concat (map (\<lambda>pg. if cell_truthy (page_text pg) then the (page_text pg) @ [10] else [])
                 pages)"

definition doc_tables :: "page list \<Rightarrow> cell list list list" where
  "doc_tables pages = concat (map page_tables pages)"

definition table_items :: "cell list list list \<Rightarrow> dict list" where
  "table_items tables = line_items (parse_tables (new_parser []) tables)"


definition forget_time :: "pdata \<Rightarrow> pdata" where
  "forget_time d = d\<lparr>parsed_at := []\<rparr>"

text \<open>
  \<open>on_result f r\<close> applies \<open>f\<close> to a normal result and passes an exception on.
  \<open>row_items\<close>, \<open>items_of_line\<close> and \<open>items_of_lines\<close> are the items that one row, one line
  and a list of lines contribute when parsed from an empty result (or the exception the
  lines raise); \<open>add_items\<close> appends items to \<open>line_items\<close>.
\<close>

fun on_result :: "('a \<Rightarrow> 'b) \<Rightarrow> exn + 'a \<Rightarrow> exn + 'b" where
  "on_result f (Inl e) = Inl e"
| "on_result f (Inr x) = Inr (f x)"

definition row_items :: "cell list \<Rightarrow> dict list" where
  "row_items row = line_items (parse_row (new_parser []) row)"

definition items_of_line :: "ustr \<Rightarrow> exn + dict list" where
  "items_of_line raw = on_result line_items (parse_item_line (new_parser []) raw)"

fun items_of_lines :: "ustr list \<Rightarrow> exn + dict list" where
  "items_of_lines [] = Inr []"
| "items_of_lines (raw # lines) =
    (case items_of_line raw of
       Inl e \<Rightarrow> Inl e
     | Inr a \<Rightarrow> (case items_of_lines lines of Inl e \<Rightarrow> Inl e | Inr b \<Rightarrow> Inr (a @ b)))"

definition add_items :: "pdata \<Rightarrow> dict list \<Rightarrow> pdata" where
  "add_items d its = d\<lparr>line_items := line_items d @ its\<rparr>"

section \<open>Test inputs\<close>


definition grouped_storage_line :: ustr where
  "grouped_storage_line = [1061, 1088, 1072, 1085, 1077, 1085, 1080, 1077, 32, 1090, 1086, 1074,
    1072, 1088, 1086, 1074, 32, 1086, 1090, 32, 48, 49, 46, 48, 49, 46, 50, 48, 50, 52, 32, 1076,
    1086, 32, 51, 49, 46, 48, 49, 46, 50, 48, 50, 52, 32, 50, 44, 53, 48, 32, 1084, 179, 32, 49, 46,
    49, 48, 48, 44, 48, 48, 32, 8381, 32, 50, 46, 55, 53, 48, 44, 48, 48, 32, 8381]"

definition txt_date_from :: ustr where
  "txt_date_from = [48, 49, 46, 48, 49, 46, 50, 48, 50, 52]"

definition txt_date_to :: ustr where
  "txt_date_to = [51, 49, 46, 48, 49, 46, 50, 48, 50, 52]"



definition invoice_line :: ustr where
  "invoice_line = [1044, 1077, 1090, 1072, 1083, 1080, 1079, 1072, 1094, 1080, 1103, 32, 1082, 32,
    1089, 1095, 1077, 1090, 1091, 32, 8470, 32, 49, 50, 51, 52, 53, 45, 49, 32, 1086, 1090, 32, 48,
    49, 46, 48, 50, 46, 50, 48, 50, 52]"

definition customer_line :: ustr where
  "customer_line = [1047, 1072, 1082, 1072, 1079, 1095, 1080, 1082, 58, 32, 1054, 1054, 1054, 32,
    1056, 1086, 1084, 1072, 1096, 1082, 1072, 32, 44, 32, 1048, 1053, 1053, 32, 55, 55, 48, 49, 50,
    51, 52, 53, 54, 55, 32, 44, 32, 1040, 1076, 1088, 1077, 1089, 58, 32, 1075, 46, 32, 1052, 1086,
    1089, 1082, 1074, 1072, 44, 32, 1091, 1083, 46, 32, 1051, 1077, 1085, 1080, 1085, 1072, 32, 49,
    32, 44, 32, 1090, 1077, 1083, 46, 32, 43, 55, 40, 57, 48, 48, 41, 49, 50, 51, 45, 52, 53, 45, 54,
    55]"

definition txt_invoice_number :: ustr where
  "txt_invoice_number = [49, 50, 51, 52, 53, 45, 49]"

definition txt_invoice_date :: ustr where
  "txt_invoice_date = [48, 49, 46, 48, 50, 46, 50, 48, 50, 52]"

definition txt_customer_name :: ustr where
  "txt_customer_name = [1054, 1054, 1054, 32, 1056, 1086, 1084, 1072, 1096, 1082, 1072]"

definition txt_customer_inn :: ustr where
  "txt_customer_inn = [55, 55, 48, 49, 50, 51, 52, 53, 54, 55]"

definition txt_customer_address :: ustr where
  "txt_customer_address = [1075, 46, 32, 1052, 1086, 1089, 1082, 1074, 1072, 44, 32, 1091, 1083,
    46, 32, 1051, 1077, 1085, 1080, 1085, 1072, 32, 49]"

definition txt_customer_phone :: ustr where
  "txt_customer_phone = [43, 55, 40, 57, 48, 48, 41, 49, 50, 51, 45, 52, 53, 45, 54, 55]"

definition both_totals_line :: ustr where
  "both_totals_line = [1048, 1090, 1086, 1075, 1086, 32, 1082, 32, 1086, 1087, 1083, 1072, 1090,
    1077, 58, 32, 49, 48, 48, 44, 48, 48, 32, 8381, 32, 1042, 32, 1090, 1086, 1084, 32, 1095, 1080,
    1089, 1083, 1077, 32, 1053, 1044, 1057, 58, 32, 50, 48, 44, 48, 48, 32, 8381]"

definition txt_loading :: ustr where
  "txt_loading = [1055, 1086, 1075, 1088, 1091, 1079, 1082, 1072]"

text \<open>The rows: the specification's example row \<open>["1", "Pogruzka", "3", "sht.", "50,00",
  "150,00"]\<close>, the same row with total "0,00", with the first cell a superscript two, cut to
  five cells, and a row repeating the storage charge of \<open>storage_line\<close>.\<close>

definition good_row :: "cell list" where
  "good_row = [Some [49], Some txt_loading, Some [51], Some lit_pcs, Some [53, 48, 44, 48, 48],
     Some [49, 53, 48, 44, 48, 48]]"

definition zero_row :: "cell list" where
  "zero_row = [Some [49], Some txt_loading, Some [51], Some lit_pcs, Some [53, 48, 44, 48, 48],
     Some [48, 44, 48, 48]]"

definition superscript_row :: "cell list" where
  "superscript_row = [Some [178], Some txt_loading, Some [51], Some lit_pcs,
     Some [53, 48, 44, 48, 48], Some [49, 53, 48, 44, 48, 48]]"

definition five_cell_row :: "cell list" where
  "five_cell_row = [Some [49], Some txt_loading, Some [51], Some lit_pcs, Some [53, 48, 44, 48, 48]]"




definition grouped_doc :: "page list" where
  "grouped_doc = [\<lparr>page_text = Some grouped_storage_line, page_tables = []\<rparr>]"


section \<open>Evaluation rules\<close>

text \<open>The defining equations the simplifier unfolds to run the model on a concrete input.\<close>

lemmas char_defs = is_decimal_def nd_ranges_def is_space_def space_ranges_def is_digit_def
  other_digit_ranges_def digit_val_def rouble_def

lemmas text_defs = strip_def starts_with_def comma_to_dot_def isdigit_def dec_val_def py_int_def
  py_float_def or_empty_def ascii_def max_str_digits_def Let_def

lemmas float_defs = round64_def log2_floor_def round_half_even_def bit_length.simps

lemmas re_defs = in_class_def one_char_def cats_def group_def re_match_def sp_def digits_def
  date_tok_def amount_tok_def re_sub_delete_def

lemmas lit_defs = mk_invoice_def mk_company_def mk_customer_def lit_inn_def lit_address_def
  lit_tel_def lit_ot_def lit_do_def lit_numero_def lit_name_header_def mk_storage_def lit_m3_def
  mk_reception_def lit_reception_def lit_pcs_def mk_shipment_def lit_priemka_def mk_total_def
  mk_vat_def mk_items_def lit_na_summu_def

section \<open>The matcher on a repeated character class\<close>

text \<open>\<open>re.search\<close> of \<open>[...]+\<close> finds the first character of the class and takes the
  longest run from there.\<close>

lemma one_char_Nil: "one_char P ([], cs) = []"
  by (simp add: one_char_def)

lemma one_char_Cons: "one_char P (c # r, cs) = (if P c then [(r, cs)] else [])"
  by (simp add: one_char_def)

lemma ms_Cls_eq: "ms (Cls items) = one_char (in_class items)"
  by (rule ext) simp

lemma rep_greedy_cls:
  "length s \<le> n \<Longrightarrow>
   \<exists>rest. rep_greedy n (one_char (in_class items)) (s, cs) = (dropWhile (in_class items) s, cs) # rest"
proof (induction n arbitrary: s)
  case 0
  then show ?case by simp
next
  case (Suc n)
  show ?case
  proof (cases s)
    case Nil
    then show ?thesis by (simp add: one_char_Nil one_char_Cons ms_Cls_eq)
  next
    case (Cons c r)
    show ?thesis
    proof (cases "in_class items c")
      case True
      from Suc.prems Cons have "length r \<le> n" by simp
      from Suc.IH [OF this] obtain rest where
        "rep_greedy n (one_char (in_class items)) (r, cs) = (dropWhile (in_class items) r, cs) # rest"
        by blast
      with True Cons show ?thesis by (simp add: one_char_Nil one_char_Cons ms_Cls_eq)
    next
      case False
      with Cons show ?thesis by (simp add: one_char_Nil one_char_Cons ms_Cls_eq)
    qed
  qed
qed

lemma take_length_dropWhile:
  "take (length s - length (dropWhile P s)) s = takeWhile P s"
  by (induction s) (auto simp: Suc_diff_le length_dropWhile_le)

lemma re_match_plus_cls:
  "re_match (Plus (Cls items)) s =
     (if s \<noteq> [] \<and> in_class items (hd s)
      then Some \<lparr>whole = takeWhile (in_class items) s, caps = []\<rparr> else None)"
proof (cases s)
  case Nil
  then show ?thesis by (simp add: re_match_def one_char_Nil one_char_Cons ms_Cls_eq)
next
  case (Cons c r)
  show ?thesis
  proof (cases "in_class items c")
    case True
    obtain rest where
      r: "rep_greedy (length r) (one_char (in_class items)) (r, []) = (dropWhile (in_class items) r, []) # rest"
      using rep_greedy_cls [of r "length r" items "[]"] by auto
    have "take (length (c # r) - length (dropWhile (in_class items) (c # r))) (c # r)
          = takeWhile (in_class items) (c # r)"
      by (rule take_length_dropWhile)
    with True Cons r show ?thesis by (simp add: re_match_def one_char_Nil one_char_Cons ms_Cls_eq)
  next
    case False
    with Cons show ?thesis by (simp add: re_match_def one_char_Nil one_char_Cons ms_Cls_eq)
  qed
qed

lemma re_search_plus_cls:
  "re_search (Plus (Cls items)) s =
     (if dropWhile (\<lambda>c. \<not> in_class items c) s = [] then None
      else Some \<lparr>whole = takeWhile (in_class items) (dropWhile (\<lambda>c. \<not> in_class items c) s),
                 caps = []\<rparr>)"
  by (induction s) (simp_all add: re_match_plus_cls)

section \<open>Facts about the character tables\<close>

lemma not_decimal_comma: "\<not> is_decimal 44"
  by (simp add: is_decimal_def nd_ranges_def)

lemma not_decimal_dot: "\<not> is_decimal 46"
  by (simp add: is_decimal_def nd_ranges_def)

lemma not_decimal_rouble: "\<not> is_decimal rouble"
  by (simp add: is_decimal_def nd_ranges_def rouble_def)

lemma in_ranges_bounded:
  "in_ranges c rs \<Longrightarrow> list_all (\<lambda>(a, b). lo \<le> a \<and> b \<le> hi) rs \<Longrightarrow> lo \<le> c \<and> c \<le> hi"
  by (induction rs) auto

lemma in_ranges_append: "in_ranges c (xs @ ys) = (in_ranges c xs \<or> in_ranges c ys)"
  by (induction xs) auto

lemma decimal_bounds:
  assumes "is_decimal c"
  shows "(48 \<le> c \<and> c \<le> 57) \<or> (1632 \<le> c \<and> c \<le> 4249) \<or> (6112 \<le> c \<and> c \<le> 7257)
         \<or> (42528 \<le> c \<and> c \<le> 130041)"
proof -
  let ?a = "take 1 nd_ranges" and ?b = "take 18 (drop 1 nd_ranges)"
  let ?c = "take 10 (drop 19 nd_ranges)" and ?d = "drop 29 nd_ranges"
  have "nd_ranges = ?a @ ?b @ ?c @ ?d"
    by (simp add: nd_ranges_def)
  with assms have "in_ranges c ?a \<or> in_ranges c ?b \<or> in_ranges c ?c \<or> in_ranges c ?d"
    unfolding is_decimal_def by (metis in_ranges_append)
  moreover have "list_all (\<lambda>(a, b). 48 \<le> a \<and> b \<le> 57) ?a"
    by (simp add: nd_ranges_def)
  moreover have "list_all (\<lambda>(a, b). 1632 \<le> a \<and> b \<le> 4249) ?b"
    by (simp add: nd_ranges_def)
  moreover have "list_all (\<lambda>(a, b). 6112 \<le> a \<and> b \<le> 7257) ?c"
    by (simp add: nd_ranges_def)
  moreover have "list_all (\<lambda>(a, b). 42528 \<le> a \<and> b \<le> 130041) ?d"
    by (simp add: nd_ranges_def)
  ultimately show ?thesis
    using in_ranges_bounded [of c] by blast
qed

lemma space_bounds:
  "is_space c \<Longrightarrow> c \<le> 32 \<or> c = 133 \<or> c = 160 \<or> c = 5760 \<or> (8192 \<le> c \<and> c \<le> 12288)"
  by (auto simp: is_space_def space_ranges_def)

lemma space_not_decimal: "is_space c \<Longrightarrow> \<not> is_decimal c"
  using decimal_bounds [of c] space_bounds [of c] by arith

section \<open>Rounding to binary64\<close>

text \<open>
  What \<open>round64\<close> is: \<open>log2_floor\<close> is the binary exponent of the fraction, a finite result
  is a binary64 value (at most 53 bits of mantissa, exponent in range), it lies within
  half a unit in the last place of the fraction, hence within the relative error
  \<open>2^-53\<close> for a fraction in the normal range, and \<open>inf\<close> arises only from \<open>2^1023\<close> on.
\<close>

lemma bit_length_upper: "n < 2 ^ bit_length n"
proof (induction n rule: bit_length.induct)
  case (1 n)
  show ?case
  proof (cases "n = 0")
    case True
    then show ?thesis by (simp add: bit_length.simps)
  next
    case False
    then have "n div 2 < 2 ^ bit_length (n div 2)" by (rule 1)
    moreover have "bit_length n = Suc (bit_length (n div 2))"
      using False by (subst bit_length.simps) simp
    ultimately show ?thesis by simp
  qed
qed

lemma bit_length_lower: "0 < n \<Longrightarrow> 2 ^ bit_length n \<le> 2 * n"
proof (induction n rule: bit_length.induct)
  case (1 n)
  then have n: "n \<noteq> 0" by simp
  have bl: "bit_length n = Suc (bit_length (n div 2))"
    using n by (subst bit_length.simps) simp
  show ?case
  proof (cases "n div 2 = 0")
    case True
    then have "bit_length (n div 2) = 0" by (simp add: bit_length.simps)
    with bl n show ?thesis by simp
  next
    case False
    then have "2 ^ bit_length (n div 2) \<le> 2 * (n div 2)"
      using 1 n by simp
    with bl show ?thesis by simp
  qed
qed

lemma round_half_even_int:
  assumes "0 < d"
  shows "2 * \<bar>int (round_half_even n d) * int d - int n\<bar> \<le> int d"
proof -
  define q where "q = n div d"
  define r where "r = n mod d"
  have n: "int n = int q * int d + int r"
    unfolding q_def r_def by (metis div_mult_mod_eq of_nat_add of_nat_mult)
  have r: "r < d" unfolding r_def using assms by simp
  consider (lo) "2 * r < d" | (hi) "d < 2 * r" | (tie) "2 * r = d" by linarith
  then show ?thesis
  proof cases
    case lo
    then have "round_half_even n d = q"
      by (simp add: round_half_even_def q_def r_def Let_def)
    with n lo show ?thesis by simp
  next
    case hi
    then have "round_half_even n d = q + 1"
      by (simp add: round_half_even_def q_def r_def Let_def)
    with n hi r show ?thesis by (simp add: algebra_simps)
  next
    case tie
    then have "round_half_even n d = q \<or> round_half_even n d = q + 1"
      by (simp add: round_half_even_def q_def r_def Let_def)
    with n tie r show ?thesis by (auto simp: algebra_simps)
  qed
qed

lemma round_half_even_rat:
  assumes "0 < d"
  shows "\<bar>(of_nat (round_half_even n d) :: rat) - of_nat n / of_nat d\<bar> \<le> 1 / 2"
proof -
  let ?m = "round_half_even n d"
  have "2 * \<bar>int ?m * int d - int n\<bar> \<le> int d"
    by (rule round_half_even_int [OF assms])
  then have "(of_int (2 * \<bar>int ?m * int d - int n\<bar>) :: rat) \<le> of_int (int d)"
    by (simp only: of_int_le_iff)
  then have i: "2 * \<bar>(of_nat ?m :: rat) * of_nat d - of_nat n\<bar> \<le> of_nat d"
    by simp
  have d: "(0::rat) < of_nat d" using assms by simp
  have "(of_nat ?m :: rat) - of_nat n / of_nat d = (of_nat ?m * of_nat d - of_nat n) / of_nat d"
    using d by (simp add: field_simps)
  then have "\<bar>(of_nat ?m :: rat) - of_nat n / of_nat d\<bar>
      = \<bar>of_nat ?m * of_nat d - of_nat n\<bar> / of_nat d"
    using d by (simp add: abs_divide)
  also have "\<dots> \<le> 1 / 2"
    using i d by (simp add: field_simps)
  finally show ?thesis .
qed

lemma two_powi_pos: "(0::rat) < 2 powi e"
  by simp

lemma two_powi_nat: "0 \<le> e \<Longrightarrow> (2::rat) powi e = 2 ^ nat e"
  by (simp add: power_int_def)

lemma two_powi_neg:
  assumes "e \<le> 0"
  shows "(2::rat) powi e = 1 / 2 ^ nat (- e)"
proof -
  have "(2::rat) powi e = 2 powi (- (- e))" by simp
  also have "\<dots> = 1 / 2 powi (- e)" by (rule power_int_minus_divide)
  also have "(2::rat) powi (- e) = 2 ^ nat (- e)"
    using assms by (intro two_powi_nat) simp
  finally show ?thesis .
qed

lemma bit_length_powi:
  assumes "0 < n"
  shows "(2::rat) powi (int (bit_length n) - 1) \<le> of_nat n"
    and "(of_nat n :: rat) < 2 powi int (bit_length n)"
proof -
  have "n < 2 ^ bit_length n" by (rule bit_length_upper)
  then have "(of_nat n :: rat) < of_nat (2 ^ bit_length n)"
    by (simp only: of_nat_less_iff)
  then show "(of_nat n :: rat) < 2 powi int (bit_length n)" by simp
  have "2 ^ bit_length n \<le> 2 * n" using assms by (rule bit_length_lower)
  then have "(of_nat (2 ^ bit_length n) :: rat) \<le> of_nat (2 * n)"
    by (simp only: of_nat_le_iff)
  then have "(2::rat) powi int (bit_length n) \<le> 2 * of_nat n" by simp
  moreover have "(2::rat) powi (int (bit_length n) - 1) = 2 powi int (bit_length n) / 2"
    by (subst power_int_diff) simp_all
  ultimately show "(2::rat) powi (int (bit_length n) - 1) \<le> of_nat n" by simp
qed

lemma log2_test:
  assumes "0 < b"
  shows "(if 0 \<le> d then b * 2 ^ nat d \<le> a else b \<le> a * 2 ^ nat (- d))
         = ((2::rat) powi d \<le> of_nat a / of_nat b)"
proof (cases "0 \<le> d")
  case True
  have "(b * 2 ^ nat d \<le> a) = ((of_nat (b * 2 ^ nat d) :: rat) \<le> of_nat a)"
    by (simp only: of_nat_le_iff)
  also have "\<dots> = ((2::rat) ^ nat d \<le> of_nat a / of_nat b)"
    using assms by (simp add: field_simps)
  finally show ?thesis using True by (simp add: two_powi_nat)
next
  case False
  then have d: "d \<le> 0" by simp
  have "(b \<le> a * 2 ^ nat (- d)) = ((of_nat b :: rat) \<le> of_nat (a * 2 ^ nat (- d)))"
    by (simp only: of_nat_le_iff)
  also have "\<dots> = (1 / (2::rat) ^ nat (- d) \<le> of_nat a / of_nat b)"
    using assms by (simp add: field_simps)
  finally show ?thesis using False by (simp add: two_powi_neg [OF d])
qed

lemma log2_floor_bounds:
  assumes a: "0 < a" and b: "0 < b"
  shows "(2::rat) powi log2_floor a b \<le> of_nat a / of_nat b"
    and "(of_nat a :: rat) / of_nat b < 2 powi (log2_floor a b + 1)"
proof -
  let ?v = "(of_nat a :: rat) / of_nat b"
  define d where "d = int (bit_length a) - int (bit_length b)"
  have bpos: "(0::rat) < of_nat b" using b by simp
  have apos: "(0::rat) < of_nat a" using a by simp
  have lo: "(2::rat) powi (d - 1) \<le> ?v"
  proof -
    have "(2::rat) powi (d - 1) = 2 powi (int (bit_length a) - 1) / 2 powi int (bit_length b)"
      unfolding d_def by (subst power_int_diff [symmetric]) (simp_all add: algebra_simps)
    also have "\<dots> \<le> of_nat a / 2 powi int (bit_length b)"
      using bit_length_powi(1) [OF a] by (simp add: divide_right_mono)
    also have "\<dots> \<le> ?v"
      using bit_length_powi(2) [OF b] apos bpos by (simp add: frac_le)
    finally show ?thesis .
  qed
  have hi: "?v < 2 powi (d + 1)"
  proof -
    have "?v < 2 powi int (bit_length a) / of_nat b"
      using bit_length_powi(2) [OF a] bpos by (simp add: divide_strict_right_mono)
    also have "\<dots> \<le> 2 powi int (bit_length a) / 2 powi (int (bit_length b) - 1)"
      using bit_length_powi(1) [OF b] by (simp add: frac_le)
    also have "\<dots> = 2 powi (d + 1)"
      unfolding d_def by (subst power_int_diff [symmetric]) (simp_all add: algebra_simps)
    finally show ?thesis .
  qed
  have e: "log2_floor a b = (if (2::rat) powi d \<le> ?v then d else d - 1)"
    unfolding log2_floor_def Let_def d_def [symmetric] log2_test [OF b] ..
  show "(2::rat) powi log2_floor a b \<le> ?v"
    using lo by (simp add: e)
  show "?v < 2 powi (log2_floor a b + 1)"
    using hi by (simp add: e not_le)
qed

lemma round64_form:
  assumes a: "0 < a" and b: "0 < b" and r: "round64 a b = PFloat x"
  shows "\<exists>m. x = of_nat m * 2 powi (max (log2_floor a b) (- 1022) - 52)
           \<and> \<bar>(of_nat m :: rat) - of_nat a / of_nat b
                   * 2 powi (52 - max (log2_floor a b) (- 1022))\<bar> \<le> 1 / 2"
proof -
  define E where "E = max (log2_floor a b) (- 1022)"
  have bpos: "(0::rat) < of_nat b" using b by simp
  show ?thesis
  proof (cases "E \<le> 52")
    case True
    define k where "k = nat (52 - E)"
    define m where "m = round_half_even (a * 2 ^ k) b"
    from r a True have x: "x = of_nat m / 2 ^ k"
      by (simp add: round64_def Let_def E_def [symmetric] k_def [symmetric] m_def [symmetric]
          split: if_splits)
    have p1: "(2::rat) powi (E - 52) = 1 / 2 ^ k"
      using True two_powi_neg [of "E - 52"] by (simp add: k_def)
    have p2: "(2::rat) powi (52 - E) = 2 ^ k"
      using True two_powi_nat [of "52 - E"] by (simp add: k_def)
    have "\<bar>(of_nat m :: rat) - of_nat (a * 2 ^ k) / of_nat b\<bar> \<le> 1 / 2"
      unfolding m_def by (rule round_half_even_rat [OF b])
    then have "\<bar>(of_nat m :: rat) - of_nat a / of_nat b * 2 powi (52 - E)\<bar> \<le> 1 / 2"
      by (simp add: p2)
    moreover have "x = of_nat m * 2 powi (E - 52)"
      by (simp add: x p1)
    ultimately show ?thesis unfolding E_def by blast
  next
    case False
    define j where "j = nat (E - 52)"
    define m where "m = round_half_even a (b * 2 ^ j)"
    from r a False have x: "x = of_nat m * 2 ^ j"
      by (simp add: round64_def Let_def E_def [symmetric] j_def [symmetric] m_def [symmetric]
          split: if_splits)
    have p1: "(2::rat) powi (E - 52) = 2 ^ j"
      using False two_powi_nat [of "E - 52"] by (simp add: j_def)
    have p2: "(2::rat) powi (52 - E) = 1 / 2 ^ j"
      using False two_powi_neg [of "52 - E"] by (simp add: j_def)
    have "0 < b * 2 ^ j" using b by simp
    then have "\<bar>(of_nat m :: rat) - of_nat a / of_nat (b * 2 ^ j)\<bar> \<le> 1 / 2"
      unfolding m_def by (rule round_half_even_rat)
    then have "\<bar>(of_nat m :: rat) - of_nat a / of_nat b * 2 powi (52 - E)\<bar> \<le> 1 / 2"
      by (simp add: p2)
    moreover have "x = of_nat m * 2 powi (E - 52)"
      by (simp add: x p1)
    ultimately show ?thesis unfolding E_def by blast
  qed
qed

lemma round64_error:
  assumes a: "0 < a" and b: "0 < b" and r: "round64 a b = PFloat x"
  shows "\<bar>x - of_nat a / of_nat b\<bar> \<le> 2 powi (max (log2_floor a b) (- 1022) - 53)"
proof -
  define E where "E = max (log2_floor a b) (- 1022)"
  define v where "v = (of_nat a :: rat) / of_nat b"
  define P where "P = (2::rat) powi (E - 52)"
  define Q where "Q = (2::rat) powi (52 - E)"
  from round64_form [OF a b r] obtain m where
    x: "x = of_nat m * P" and m: "\<bar>of_nat m - v * Q\<bar> \<le> 1 / 2"
    unfolding E_def v_def P_def Q_def by blast
  have P: "0 < P" unfolding P_def by simp
  have "Q * P = 2 powi ((52 - E) + (E - 52))"
    unfolding P_def Q_def by (subst power_int_add) simp_all
  then have QP: "Q * P = 1" by simp
  have "x - v = (of_nat m - v * Q) * P"
    using QP by (simp add: x algebra_simps)
  then have "\<bar>x - v\<bar> = \<bar>of_nat m - v * Q\<bar> * P"
    using P by (simp add: abs_mult)
  also have "\<dots> \<le> 1 / 2 * P"
    using m P by (intro mult_right_mono) simp_all
  also have "1 / 2 * P = 2 powi (E - 53)"
  proof -
    have "(2::rat) powi (E - 53) = 2 powi (E - 52) / 2 powi 1"
      by (subst power_int_diff [symmetric]) simp_all
    then show ?thesis by (simp add: P_def)
  qed
  finally show ?thesis unfolding v_def E_def .
qed

lemma round64_relative_error:
  assumes a: "0 < a" and b: "0 < b" and r: "round64 a b = PFloat x"
    and n: "(2::rat) powi (- 1022) \<le> of_nat a / of_nat b"
  shows "\<bar>x - of_nat a / of_nat b\<bar> \<le> of_nat a / of_nat b / 2 ^ 53"
proof -
  define e where "e = log2_floor a b"
  define v where "v = (of_nat a :: rat) / of_nat b"
  have lo: "(2::rat) powi e \<le> v" and hi: "v < 2 powi (e + 1)"
    unfolding e_def v_def by (rule log2_floor_bounds [OF a b])+
  have "- 1022 \<le> e"
  proof (rule ccontr)
    assume "\<not> - 1022 \<le> e"
    then have "e + 1 \<le> - 1022" by simp
    then have "(2::rat) powi (e + 1) \<le> 2 powi (- 1022)"
      by (intro power_int_increasing) simp_all
    with hi n show False unfolding v_def by simp
  qed
  then have E: "max e (- 1022) = e" by simp
  have "\<bar>x - v\<bar> \<le> 2 powi (e - 53)"
    using round64_error [OF a b r] unfolding e_def [symmetric] v_def [symmetric] E .
  also have "(2::rat) powi (e - 53) = 2 powi e / 2 powi 53"
    by (subst power_int_diff [symmetric]) simp_all
  also have "\<dots> \<le> v / 2 powi 53"
    using lo by (intro divide_right_mono) simp_all
  finally show ?thesis unfolding v_def by simp
qed

lemma round64_inf:
  assumes a: "0 < a" and b: "0 < b" and r: "round64 a b = PInf"
  shows "(2::rat) ^ 1023 \<le> of_nat a / of_nat b"
proof -
  from r a have "1023 \<le> max (log2_floor a b) (- 1022)"
    by (simp add: round64_def Let_def split: if_splits)
  then have "1023 \<le> log2_floor a b" by simp
  then have "(2::rat) powi 1023 \<le> 2 powi log2_floor a b"
    by (intro power_int_increasing) simp_all
  also have "\<dots> \<le> of_nat a / of_nat b"
    by (rule log2_floor_bounds(1) [OF a b])
  finally show ?thesis by simp
qed

lemma round64_representable:
  assumes a: "0 < a" and b: "0 < b" and r: "round64 a b = PFloat x"
  shows "\<exists>m E. x = of_nat m * 2 powi (E - 52) \<and> m \<le> 2 ^ 53 \<and> - 1022 \<le> E \<and> E \<le> 1023"
proof -
  define e where "e = log2_floor a b"
  define E where "E = max e (- 1022)"
  define v where "v = (of_nat a :: rat) / of_nat b"
  from round64_form [OF a b r] obtain m where
    x: "x = of_nat m * 2 powi (E - 52)" and m: "\<bar>of_nat m - v * 2 powi (52 - E)\<bar> \<le> 1 / 2"
    unfolding E_def e_def v_def by blast
  from r a have E: "E \<le> 1023"
    unfolding E_def e_def by (simp add: round64_def Let_def split: if_splits)
  have "v < 2 powi (e + 1)"
    unfolding e_def v_def by (rule log2_floor_bounds(2) [OF a b])
  then have "v * 2 powi (52 - E) < 2 powi (e + 1) * 2 powi (52 - E)"
    by (intro mult_strict_right_mono) simp_all
  also have "\<dots> = 2 powi (e + 1 + (52 - E))"
    by (subst power_int_add) simp_all
  also have "\<dots> \<le> 2 powi 53"
    by (intro power_int_increasing) (simp_all add: E_def)
  finally have "v * 2 powi (52 - E) < 2 ^ 53" by simp
  with m have "(of_nat m :: rat) < 2 ^ 53 + 1" by linarith
  then have "(of_nat m :: rat) < of_nat (2 ^ 53 + 1)" by simp
  then have "m < 2 ^ 53 + 1" by (simp only: of_nat_less_iff)
  then have "m \<le> 2 ^ 53" by simp
  moreover have "- 1022 \<le> E" unfolding E_def by simp
  ultimately show ?thesis using x E by blast
qed

text \<open>Rounding at a tie, of a decimal with more digits than binary64 holds, on underflow
  and on overflow, as CPython's \<open>float\<close> does it.\<close>

lemma round64_examples:
  "round64 9007199254740993 1 = PFloat 9007199254740992"
  "round64 123456789012345678 100 = PFloat (4938271560493827 / 4)"
  "round64 1 (10 ^ 324) = PFloat 0"
  "round64 (10 ^ 400) 1 = PInf"
  by (simp_all add: float_defs Let_def)

section \<open>The numeric normaliser\<close>






lemma parse_number_total: "within_str_limit v \<Longrightarrow> \<exists>r. parse_number v = Inr r"
  by (auto simp: parse_number_def within_str_limit_def Let_def split: option.splits sum.splits)




text \<open>An integer argument of 4301 digits: \<open>str(value)\<close> raises before the guarded
  \<open>float\<close> is reached.\<close>

lemma parse_number_long_int_raises:
  "parse_number (AInt (10 ^ max_str_digits)) = Inl ValueError"
  by (simp add: parse_number_def)




lemma filter_dropWhile_space:
  "(\<And>c. is_space c \<Longrightarrow> \<not> Q c) \<Longrightarrow> filter Q (dropWhile is_space s) = filter Q s"
  by (induction s) auto

lemma filter_strip:
  assumes "\<And>c. is_space c \<Longrightarrow> \<not> Q c"
  shows "filter Q (strip s) = filter Q s"
proof -
  have "filter Q (strip s) = rev (filter Q (dropWhile is_space (rev (dropWhile is_space s))))"
    by (simp add: strip_def rev_filter)
  also have "\<dots> = rev (filter Q (rev (dropWhile is_space s)))"
    using assms by (simp add: filter_dropWhile_space)
  also have "\<dots> = filter Q (dropWhile is_space s)"
    by (simp add: rev_filter)
  also have "\<dots> = filter Q s"
    using assms by (simp add: filter_dropWhile_space)
  finally show ?thesis .
qed

lemma filter_join:
  assumes "\<forall>c \<in> set sep. \<not> Q c" and "\<forall>g \<in> set groups. \<forall>c \<in> set g. Q c"
  shows "filter Q (join sep groups) = concat groups"
  using assms
proof (induction sep groups rule: join.induct)
  case (1 sep)
  then show ?case by simp
next
  case (2 sep g)
  then show ?case by (simp add: filter_id_conv)
next
  case (3 sep g h gs)
  then have "filter Q g = g" "filter Q sep = []"
    by (simp_all add: filter_id_conv filter_empty_conv)
  with 3 show ?case by simp
qed

lemma keep_decimal:
  "is_decimal c \<Longrightarrow> \<not> in_class [CChr rouble, CSpace] c"
  using space_not_decimal [of c] not_decimal_rouble by (auto simp: in_class_def)

lemma comma_to_dot_decimal: "list_all is_decimal ds \<Longrightarrow> comma_to_dot ds = ds"
  unfolding comma_to_dot_def
  by (induction ds) (auto simp: not_decimal_comma)

lemma re_search_all_in_class:
  assumes "t \<noteq> []" and "list_all (in_class items) t"
  shows "re_search (Plus (Cls items)) t = Some \<lparr>whole = t, caps = []\<rparr>"
proof -
  from assms obtain c r where t: "t = c # r" by (cases t) auto
  with assms have "in_class items c" by simp
  with t have "dropWhile (\<lambda>c. \<not> in_class items c) t = t" by simp
  moreover from assms have "takeWhile (in_class items) t = t"
    by (simp add: list_all_iff takeWhile_eq_all_conv)
  ultimately show ?thesis using assms by (simp add: re_search_plus_cls)
qed

lemma dec_fold_shift:
  "foldl (\<lambda>a c. 10 * a + digit_val c) n ys
     = n * 10 ^ length ys + foldl (\<lambda>a c. 10 * a + digit_val c) 0 ys"
proof (induction ys arbitrary: n)
  case Nil
  then show ?case by simp
next
  case (Cons y ys)
  define F where "F = foldl (\<lambda>a c. 10 * a + digit_val c) 0 ys"
  define k where "k = length ys"
  have "foldl (\<lambda>a c. 10 * a + digit_val c) n (y # ys)
        = foldl (\<lambda>a c. 10 * a + digit_val c) (10 * n + digit_val y) ys"
    by simp
  also have "\<dots> = (10 * n + digit_val y) * 10 ^ k + F"
    unfolding F_def k_def by (rule Cons.IH)
  finally have A: "foldl (\<lambda>a c. 10 * a + digit_val c) n (y # ys)
        = (10 * n + digit_val y) * 10 ^ k + F" .
  have "foldl (\<lambda>a c. 10 * a + digit_val c) 0 (y # ys)
        = foldl (\<lambda>a c. 10 * a + digit_val c) (digit_val y) ys"
    by simp
  also have "\<dots> = digit_val y * 10 ^ k + F"
    unfolding F_def k_def by (rule Cons.IH)
  finally have B: "foldl (\<lambda>a c. 10 * a + digit_val c) 0 (y # ys) = digit_val y * 10 ^ k + F" .
  have "(10 * n + digit_val y) * 10 ^ k + F = n * 10 ^ Suc k + (digit_val y * 10 ^ k + F)"
    by (simp add: algebra_simps)
  with A B show ?case by (simp only: k_def length_Cons)
qed

lemma dec_val_append: "dec_val (xs @ ys) = dec_val xs * 10 ^ length ys + dec_val ys"
  unfolding dec_val_def foldl_append by (rule dec_fold_shift)

lemma fraction_split:
  "(of_nat (A * 10 ^ k + B) :: rat) / 10 ^ k = of_nat A + of_nat B / 10 ^ k"
  by (simp add: add_divide_distrib)

lemma ru_value_fraction:
  "ru_value groups fr = of_nat (dec_val (concat groups @ fr)) / 10 ^ length fr"
  unfolding ru_value_def dec_val_append by (rule fraction_split [symmetric])

lemma py_float_parts:
  assumes "ds \<noteq> []" and "list_all is_decimal ds" and "list_all is_decimal fr"
  shows "py_float (ds @ (if fr = [] then [] else 46 # fr))
         = Inr (round64 (dec_val (ds @ fr)) (10 ^ length fr))"
proof -
  have nodot: "\<And>c. c \<in> set ds \<Longrightarrow> c \<noteq> 46"
    using assms(2) not_decimal_dot by (auto simp: list_all_iff)
  show ?thesis
  proof (cases "fr = []")
    case True
    have tw: "takeWhile (\<lambda>c. c \<noteq> 46) ds = ds" and dw: "dropWhile (\<lambda>c. c \<noteq> 46) ds = []"
      using nodot by (simp_all add: takeWhile_eq_all_conv)
    from True assms show ?thesis by (simp add: py_float_def Let_def tw dw)
  next
    case False
    have tw: "takeWhile (\<lambda>c. c \<noteq> 46) (ds @ 46 # fr) = ds"
      using nodot by (simp add: takeWhile_append2)
    have dw: "dropWhile (\<lambda>c. c \<noteq> 46) (ds @ 46 # fr) = 46 # fr"
      using nodot by (simp add: dropWhile_append2)
    from False assms show ?thesis by (simp add: py_float_def Let_def tw dw)
  qed
qed

text \<open>
  Claim C2, as stated, fails: with a dot as the thousands mark the text "1.234,56 R" (R
  the rouble sign) denotes 1234.56, but the normaliser turns the comma into a second dot,
  \<open>float\<close> rejects "1.234.56" and the result is 0.
\<close>

theorem parse_number_dot_grouping_counterexample:
  "ru_wellformed [[49], [50, 51, 52]] [46] [53, 54] [32, 8381]
   \<and> ru_text [[49], [50, 51, 52]] [46] [53, 54] [32, 8381]
       = [49, 46, 50, 51, 52, 44, 53, 54, 32, 8381]
   \<and> ru_value [[49], [50, 51, 52]] [53, 54] = 123456 / 100
   \<and> parse_number (AStr (ru_text [[49], [50, 51, 52]] [46] [53, 54] [32, 8381])) = Inr (PInt 0)"
  by (simp add: ru_wellformed_def ru_text_def ru_value_def parse_number_def
      char_defs text_defs re_defs)

text \<open>
  Claim C2, amended. For every well-formed Russian-locale numeric text whose digit groups
  are joined by nothing or by a blank (not by a dot), with an optional comma fraction and
  a tail of blanks and rouble signs, \<open>_parse_number\<close> returns the float that \<open>float\<close> makes
  of the number the text denotes: the binary64 value nearest to it, ties to even, and
  \<open>inf\<close> beyond the binary64 range. The number is the digits of the groups and of the
  fraction read as one decimal, over ten to the length of the fraction. A finite result
  differs from a number in the normal range (from \<open>2^-1022\<close> on) by at most that number
  over \<open>2^53\<close>, and the result is \<open>inf\<close> only for a number of at least \<open>2^1023\<close>.
  "1 234,56 R" gives the float 1234.56, which is 2714826150374277 / 2^41.
\<close>

theorem parse_number_russian_text:
  assumes wf: "ru_wellformed groups sep fr tail" and nodot: "sep \<noteq> [46]"
  shows "parse_number (AStr (ru_text groups sep fr tail))
           = Inr (round64 (dec_val (concat groups @ fr)) (10 ^ length fr))
         \<and> ru_value groups fr = of_nat (dec_val (concat groups @ fr)) / 10 ^ length fr
         \<and> (parse_number (AStr (ru_text groups sep fr tail)) = Inr (PFloat x)
              \<and> 2 powi (- 1022) \<le> ru_value groups fr
            \<longrightarrow> \<bar>x - ru_value groups fr\<bar> \<le> ru_value groups fr / 2 ^ 53)
         \<and> (parse_number (AStr (ru_text groups sep fr tail)) = Inr PInf
            \<longrightarrow> 2 ^ 1023 \<le> ru_value groups fr)"
proof -
  let ?Q = "\<lambda>c. \<not> in_class [CChr rouble, CSpace] c"
  let ?s = "ru_text groups sep fr tail"
  let ?ds = "concat groups"
  from wf have g: "groups \<noteq> []" "\<forall>g \<in> set groups. g \<noteq> [] \<and> list_all is_decimal g"
    and f: "list_all is_decimal fr"
    and t: "\<forall>c \<in> set tail. c = rouble \<or> is_space c"
    by (simp_all add: ru_wellformed_def list_all_iff)
  from wf nodot have sp: "\<forall>c \<in> set sep. is_space c"
    by (auto simp: ru_wellformed_def list_all_iff)
  from g have ds: "?ds \<noteq> []" "list_all is_decimal ?ds"
    by (cases groups; auto simp: list_all_iff)+
  have "join sep groups \<noteq> []"
    using g by (cases "(sep, groups)" rule: join.cases) auto
  then have truthy: "truthy (AStr ?s)" by (simp add: ru_text_def)
  have Qsp: "\<And>c. is_space c \<Longrightarrow> \<not> ?Q c" by (simp add: in_class_def)
  have keep: "\<And>c. is_decimal c \<Longrightarrow> ?Q c" by (rule keep_decimal)
  have "\<forall>c \<in> set sep. \<not> ?Q c"
    using sp by (simp add: in_class_def)
  moreover have "\<forall>g \<in> set groups. \<forall>c \<in> set g. ?Q c"
    using g keep by (simp add: list_all_iff)
  ultimately have "filter ?Q (join sep groups) = ?ds"
    by (rule filter_join)
  moreover have "filter ?Q fr = fr"
    using f keep by (simp add: filter_id_conv list_all_iff)
  moreover have "filter ?Q tail = []"
    using t by (auto simp: filter_empty_conv in_class_def)
  moreover have "\<not> in_class [CChr rouble, CSpace] 44"
    by (simp add: in_class_def rouble_def is_space_def space_ranges_def)
  ultimately have "filter ?Q ?s = ?ds @ (if fr = [] then [] else 44 # fr)"
    by (simp add: ru_text_def)
  then have clean: "re_sub_delete [CChr rouble, CSpace] (strip ?s)
      = ?ds @ (if fr = [] then [] else 44 # fr)"
    using filter_strip [of ?Q ?s, OF Qsp] by (simp add: re_sub_delete_def)
  have dotted: "comma_to_dot (?ds @ (if fr = [] then [] else 44 # fr))
      = ?ds @ (if fr = [] then [] else 46 # fr)"
    using comma_to_dot_decimal [OF ds(2)] comma_to_dot_decimal [OF f]
    by (simp add: comma_to_dot_def)
  let ?t = "?ds @ (if fr = [] then [] else 46 # fr)"
  have "list_all (in_class [CDigit, CChr 46]) ?t"
    using ds f by (auto simp: list_all_iff in_class_def)
  with ds have "re_search date_tok ?t = Some \<lparr>whole = ?t, caps = []\<rparr>"
    unfolding date_tok_def by (intro re_search_all_in_class) auto
  moreover have "py_float ?t = Inr (round64 (dec_val (?ds @ fr)) (10 ^ length fr))"
    by (rule py_float_parts [OF ds f])
  ultimately have p: "parse_number (AStr ?s)
      = Inr (round64 (dec_val (?ds @ fr)) (10 ^ length fr))"
    using truthy clean dotted by (simp add: parse_number_def Let_def)
  let ?a = "dec_val (?ds @ fr)" and ?b = "(10::nat) ^ length fr"
  have v: "ru_value groups fr = of_nat ?a / of_nat ?b"
    by (simp add: ru_value_fraction)
  have bpos: "0 < ?b" by simp
  have apos: "0 < ?a" if "0 < ru_value groups fr"
  proof (rule ccontr)
    assume "\<not> 0 < ?a"
    then have "?a = 0" by simp
    with v that show False by simp
  qed
  have acc: "\<bar>x - ru_value groups fr\<bar> \<le> ru_value groups fr / 2 ^ 53"
    if r: "round64 ?a ?b = PFloat x" and n: "2 powi (- 1022) \<le> ru_value groups fr"
  proof -
    have "(0::rat) < 2 powi (- 1022)" by simp
    with n have "0 < ru_value groups fr" by linarith
    then have "0 < ?a" by (rule apos)
    from round64_relative_error [OF this bpos r] n show ?thesis
      unfolding v by simp
  qed
  have inf: "2 ^ 1023 \<le> ru_value groups fr" if r: "round64 ?a ?b = PInf"
  proof -
    have "?a \<noteq> 0"
    proof
      assume "?a = 0"
      then have "round64 ?a ?b = PFloat 0" by (simp add: round64_def)
      with r show False by simp
    qed
    then have "0 < ?a" by simp
    from round64_inf [OF this bpos r] show ?thesis unfolding v .
  qed
  from p v acc inf show ?thesis by simp
qed

theorem parse_number_russian_text_witness:
  "ru_wellformed [[49], [50, 51, 52]] [32] [53, 54] [32, 8381] \<and> [32] \<noteq> [46::nat]
   \<and> ru_text [[49], [50, 51, 52]] [32] [53, 54] [32, 8381]
       = [49, 32, 50, 51, 52, 44, 53, 54, 32, 8381]
   \<and> ru_value [[49], [50, 51, 52]] [53, 54] = 123456 / 100
   \<and> parse_number (AStr [49, 32, 50, 51, 52, 44, 53, 54, 32, 8381])
       = Inr (PFloat (2714826150374277 / 2 ^ 41))
   \<and> 2 powi (- 1022) \<le> ru_value [[49], [50, 51, 52]] [53, 54]
   \<and> \<bar>2714826150374277 / 2 ^ 41 - ru_value [[49], [50, 51, 52]] [53, 54]\<bar>
       \<le> ru_value [[49], [50, 51, 52]] [53, 54] / 2 ^ 53"
proof -
  have r: "round64 123456 100 = PFloat (2714826150374277 / 2 ^ 41)"
    by (simp add: float_defs)
  have d: "dec_val [49, 50, 51, 52, 53, 54] = 123456"
    by (simp add: dec_val_def char_defs)
  have w: "ru_wellformed [[49], [50, 51, 52]] [32] [53, 54] [32, 8381]"
    by (simp add: ru_wellformed_def char_defs)
  have v: "ru_value [[49], [50, 51, 52]] [53, 54] = 123456 / 100"
    by (simp add: ru_value_fraction d)
  have n: "(2::rat) powi (- 1022) \<le> 123456 / 100"
  proof -
    have "(2::rat) powi (- 1022) \<le> 2 powi 0"
      by (intro power_int_increasing) simp_all
    then show ?thesis by simp
  qed
  show ?thesis
    using parse_number_russian_text [OF w, of "2714826150374277 / 2 ^ 41"] n w
    by (simp add: ru_text_def d r v)
qed

section \<open>Table mode\<close>

lemma first_cell_test:
  "(cell_truthy c \<and> isdigit (cell_str c)) = isdigit (cell_str (or_empty c))"
  by (cases c) (simp_all add: or_empty_def isdigit_def char_defs)

lemma first_cell_str: "cell_truthy c \<Longrightarrow> cell_str c = cell_str (or_empty c)"
  by (simp add: or_empty_def)

lemma append_item_neq: "append_item data item \<noteq> data"
proof
  assume "append_item data item = data"
  then have "line_items (append_item data item) = line_items data" by simp
  then show False by (simp add: append_item_def)
qed

lemma cell_within_limit: "within_str_limit (of_cell c)"
  by (cases c) (simp_all add: within_str_limit_def)

lemma parse_number_cell: "parse_number (of_cell c) = Inr (cell_number c)"
  using parse_number_total [OF cell_within_limit [of c]]
  by (auto simp: cell_number_def)

lemma number_at_eq:
  "number_at row i = Inr (if length row > i then cell_number (row ! i) else PInt 0)"
  by (simp add: number_at_def parse_number_cell)

lemma row_item_eq:
  assumes "cell_truthy (row ! 0)"
  shows "row_item row =
    (if list_all is_decimal (first_cell row) \<and> length (first_cell row) \<le> max_str_digits
     then Inr [(''row_number'', PInt (int (dec_val (first_cell row)))),
               (''description'', PStr (cell_text (row ! 1))),
               (''quantity'', if length row > 2 then cell_number (row ! 2) else PInt 0),
               (''unit'', if length row > 3 then PStr (cell_text (row ! 3)) else PStr []),
               (''price_per_unit'', if length row > 4 then cell_number (row ! 4) else PInt 0),
               (''total_amount'', sixth_cell_number row)]
     else Inl ValueError)"
proof -
  from assms have s: "cell_str (row ! 0) = first_cell row"
    by (simp add: first_cell_def first_cell_str)
  from assms have "first_cell row \<noteq> []"
    by (cases "row ! 0") (simp_all add: first_cell_def or_empty_def)
  then show ?thesis
    by (simp add: row_item_def s py_int_def number_at_eq sixth_cell_number_def)
qed

lemma parse_row_eq:
  "parse_row data row =
     (if claimed_row_emits row \<and> list_all is_decimal (first_cell row)
         \<and> length (first_cell row) \<le> max_str_digits
      then append_item data (table_item row) else data)"
proof (cases "5 \<le> length row \<and> \<not> is_header_row row \<and> isdigit (first_cell row)")
  case False
  then show ?thesis
    using first_cell_test [of "row ! 0"]
    by (auto simp: parse_row_def claimed_row_emits_def first_cell_def)
next
  case True
  then have t: "cell_truthy (row ! 0)" "isdigit (cell_str (row ! 0))"
    using first_cell_test [of "row ! 0"] by (simp_all add: first_cell_def)
  from True have ne: "first_cell row \<noteq> []" by (simp add: isdigit_def)
  from True have rn: "row \<noteq> []" by auto
  show ?thesis
  proof (cases "list_all is_decimal (first_cell row) \<and> length (first_cell row) \<le> max_str_digits")
    case False
    with row_item_eq [OF t(1)] have "row_item row = Inl ValueError"
      by simp
    with True t False rn show ?thesis
      by (auto simp: parse_row_def)
  next
    case dec: True
    then have r: "row_item row =
       Inr [(''row_number'', PInt (int (dec_val (first_cell row)))),
            (''description'', PStr (cell_text (row ! 1))),
            (''quantity'', if length row > 2 then cell_number (row ! 2) else PInt 0),
            (''unit'', if length row > 3 then PStr (cell_text (row ! 3)) else PStr []),
            (''price_per_unit'', if length row > 4 then cell_number (row ! 4) else PInt 0),
            (''total_amount'', sixth_cell_number row)]"
      using row_item_eq [OF t(1)] by simp
    from True t dec rn show ?thesis
      by (simp add: parse_row_def r dict_get_def claimed_row_emits_def table_item_def
          append_item_def)
  qed
qed

lemma parse_row_short: "length row \<le> 5 \<Longrightarrow> parse_row data row = data"
  by (simp add: parse_row_eq claimed_row_emits_def sixth_cell_number_def)

text \<open>
  Claim C3, amended. A row yields a table item exactly when it has five cells or more, its
  first cell holds no header marker and consists entirely of decimal digits that \<open>int\<close>
  accepts (digits of category Nd, not merely \<open>str.isdigit\<close>, and at most 4300 of them),
  its trimmed second cell is non-empty and its normalised sixth cell is positive; the item
  is then \<open>table_item row\<close>, appended. The example row of the specification yields one item
  with total 150, and the same row with total "0,00" yields none.
\<close>

theorem table_row_emission:
  "parse_row data row =
     (if claimed_row_emits row \<and> list_all is_decimal (first_cell row)
         \<and> length (first_cell row) \<le> max_str_digits
      then append_item data (table_item row) else data)
   \<and> (parse_row data row \<noteq> data)
       = (claimed_row_emits row \<and> list_all is_decimal (first_cell row)
          \<and> length (first_cell row) \<le> max_str_digits)"
  using parse_row_eq [of data row] append_item_neq [of data "table_item row"] by simp

lemma sample_numbers:
  "parse_number (AStr [51]) = Inr (PFloat 3)"
  "parse_number (AStr [53, 48, 44, 48, 48]) = Inr (PFloat 50)"
  "parse_number (AStr [49, 53, 48, 44, 48, 48]) = Inr (PFloat 150)"
  "parse_number (AStr [48, 44, 48, 48]) = Inr (PFloat 0)"
  by (simp_all add: parse_number_def char_defs text_defs re_defs float_defs)

lemma sample_texts:
  "cell_text (Some txt_loading) = txt_loading" "cell_text (Some lit_pcs) = lit_pcs"
  "\<not> contains [49] lit_numero" "\<not> contains [49] lit_name_header"
  "\<not> contains [178] lit_numero" "\<not> contains [178] lit_name_header"
  "txt_loading \<noteq> []"
  by (simp_all add: cell_text_def or_empty_def strip_def txt_loading_def lit_pcs_def
      lit_numero_def lit_name_header_def starts_with_def char_defs)

theorem table_row_emission_witness:
  "claimed_row_emits good_row \<and> list_all is_decimal (first_cell good_row)
   \<and> length (first_cell good_row) \<le> max_str_digits
   \<and> line_items (parse_row (new_parser []) good_row) =
       [[(''row_number'', PInt 1), (''description'', PStr txt_loading), (''quantity'', PFloat 3),
         (''unit'', PStr lit_pcs), (''price_per_unit'', PFloat 50), (''total_amount'', PFloat 150),
         (''type'', PStr (ascii ''table_item''))]]
   \<and> \<not> claimed_row_emits zero_row
   \<and> parse_row (new_parser []) zero_row = new_parser []"
proof -
  have g: "claimed_row_emits good_row" "list_all is_decimal (first_cell good_row)"
    "length (first_cell good_row) \<le> max_str_digits"
    by (simp_all add: claimed_row_emits_def good_row_def first_cell_def is_header_row_def
        or_empty_def isdigit_def sixth_cell_number_def cell_number_def sample_numbers sample_texts
        lit_numero_def lit_name_header_def starts_with_def max_str_digits_def char_defs)
  have i: "table_item good_row =
       [(''row_number'', PInt 1), (''description'', PStr txt_loading), (''quantity'', PFloat 3),
        (''unit'', PStr lit_pcs), (''price_per_unit'', PFloat 50), (''total_amount'', PFloat 150),
        (''type'', PStr (ascii ''table_item''))]"
    by (simp add: table_item_def row_item_def good_row_def number_at_def py_int_def dec_val_def
        sample_numbers sample_texts max_str_digits_def char_defs)
  have z: "\<not> claimed_row_emits zero_row"
    by (simp add: claimed_row_emits_def zero_row_def sixth_cell_number_def cell_number_def
        sample_numbers)
  show ?thesis
    using table_row_emission [of "new_parser []" good_row]
      table_row_emission [of "new_parser []" zero_row] g i z
    by (simp add: append_item_def new_parser_def)
qed

text \<open>
  Claim C3, as stated, fails: a first cell holding a superscript two passes \<open>isdigit\<close>,
  so the row meets every condition of the claim, but \<open>int\<close> rejects it, the \<open>ValueError\<close> is
  caught and the row is skipped.
\<close>

theorem table_row_superscript_counterexample:
  "claimed_row_emits superscript_row
   \<and> parse_row (new_parser []) superscript_row = new_parser []"
proof -
  have c: "claimed_row_emits superscript_row"
    by (simp add: claimed_row_emits_def superscript_row_def first_cell_def is_header_row_def
        or_empty_def isdigit_def sixth_cell_number_def cell_number_def sample_numbers sample_texts
        lit_numero_def lit_name_header_def starts_with_def char_defs)
  have "row_item superscript_row = Inl ValueError"
    by (simp add: row_item_def superscript_row_def py_int_def char_defs)
  then have "parse_row (new_parser []) superscript_row = new_parser []"
    by (simp add: parse_row_def)
  with c show ?thesis by simp
qed

text \<open>
  Claim C10. A row of exactly five cells never yields an item, whatever its cells: the
  total defaults to 0 and emission wants a positive total. The witness is a five-cell row
  that passes every other test.
\<close>

theorem five_cell_row_never_emits:
  "length row = 5 \<Longrightarrow> parse_row data row = data \<and> parse_tables data [[row]] = data"
  by (simp add: parse_tables_def parse_row_short)

theorem five_cell_row_never_emits_witness:
  "length five_cell_row = 5 \<and> \<not> is_header_row five_cell_row \<and> isdigit (first_cell five_cell_row)
   \<and> cell_text (five_cell_row ! 1) \<noteq> []
   \<and> parse_tables (new_parser []) [[five_cell_row]] = new_parser []"
  using five_cell_row_never_emits [of five_cell_row "new_parser []"]
  by (simp add: five_cell_row_def first_cell_def is_header_row_def or_empty_def isdigit_def
      sample_texts lit_numero_def lit_name_header_def starts_with_def char_defs)

section \<open>Text mode\<close>










lemma storage_amounts:
  "amount [50, 44, 53, 48] = Inr (PFloat (5 / 2))"
  "amount [49, 48, 48, 44, 48, 48] = Inr (PFloat 100)"
  "amount [50, 53, 48, 44, 48, 48] = Inr (PFloat 250)"
  by (simp_all add: amount_def comma_to_dot_def py_float_def dec_val_def Let_def char_defs
      float_defs)




section \<open>Header extraction\<close>

lemma strip_invoice_line: "strip invoice_line = invoice_line"
  by (simp add: invoice_line_def strip_def char_defs)

lemma strip_customer_line: "strip customer_line = customer_line"
  by (simp add: customer_line_def strip_def char_defs)

lemma invoice_line_markers:
  "contains invoice_line mk_invoice" "\<not> contains invoice_line mk_company"
  "\<not> contains invoice_line mk_customer"
  by (simp_all add: invoice_line_def mk_invoice_def mk_company_def mk_customer_def starts_with_def)

lemma customer_line_markers:
  "\<not> contains customer_line mk_invoice" "\<not> contains customer_line mk_company"
  "contains customer_line mk_customer"
  by (simp_all add: customer_line_def mk_invoice_def mk_company_def mk_customer_def starts_with_def)

lemma search_invoice_line:
  "re_search invoice_re invoice_line =
     Some \<lparr>whole = drop 20 invoice_line, caps = [(2, txt_invoice_date), (1, txt_invoice_number)]\<rparr>"
  by (simp add: invoice_line_def invoice_re_def txt_invoice_date_def txt_invoice_number_def
      lit_defs char_defs text_defs re_defs)

lemma search_customer_party:
  "re_search (party_re mk_customer) customer_line =
     Some \<lparr>whole = take 38 customer_line, caps = [(2, txt_customer_inn), (1, txt_customer_name)]\<rparr>"
  by (simp add: customer_line_def party_re_def txt_customer_inn_def txt_customer_name_def
      lit_defs char_defs text_defs re_defs)

lemma search_customer_address:
  "re_search address_re customer_line =
     Some \<lparr>whole = drop 41 customer_line,
           caps = [(2, txt_customer_phone), (1, txt_customer_address @ [32])]\<rparr>"
  by (simp add: customer_line_def address_re_def txt_customer_phone_def txt_customer_address_def
      lit_defs char_defs text_defs re_defs)

lemma strip_customer_fields:
  "strip txt_customer_name = txt_customer_name"
  "strip (txt_customer_address @ [32]) = txt_customer_address"
  "strip txt_customer_phone = txt_customer_phone"
  by (simp_all add: txt_customer_name_def txt_customer_address_def txt_customer_phone_def
      strip_def char_defs)

lemma header_invoice_line:
  "parse_header_line data invoice_line =
     data\<lparr>invoice_info := AList.update ''date'' (PStr txt_invoice_date)
              (AList.update ''number'' (PStr txt_invoice_number) (invoice_info data))\<rparr>"
  by (simp add: parse_header_line_def strip_invoice_line invoice_line_markers search_invoice_line
      group_def)

lemma header_customer_line:
  "parse_header_line data customer_line =
     data\<lparr>customer_info :=
       AList.update ''phone'' (PStr txt_customer_phone)
        (AList.update ''address'' (PStr txt_customer_address)
          (AList.update ''inn'' (PStr txt_customer_inn)
            (AList.update ''name'' (PStr txt_customer_name) (customer_info data))))\<rparr>"
  by (simp add: parse_header_line_def strip_customer_line customer_line_markers
      search_customer_party search_customer_address set_party_def group_def strip_customer_fields)

lemma split_header_lines:
  "split_on 10 invoice_line = [invoice_line]" "split_on 10 customer_line = [customer_line]"
  by (simp_all add: invoice_line_def customer_line_def)

text \<open>
  Claim C5. On the invoice line of the specification \<open>_parse_header_info\<close> sets number
  "12345-1" and date "01.02.2024"; on the customer line it sets name "OOO Romashka", INN
  "7701234567", address "g. Moskva, ul. Lenina 1" and phone "+7(900)123-45-67" (the texts
  \<open>txt_invoice_number\<close> to \<open>txt_customer_phone\<close>), whatever the result held before.
\<close>

theorem header_test_vectors:
  "map_of (invoice_info (parse_header_info data invoice_line)) ''number''
     = Some (PStr txt_invoice_number)
   \<and> map_of (invoice_info (parse_header_info data invoice_line)) ''date''
     = Some (PStr txt_invoice_date)
   \<and> map_of (customer_info (parse_header_info data customer_line)) ''name''
     = Some (PStr txt_customer_name)
   \<and> map_of (customer_info (parse_header_info data customer_line)) ''inn''
     = Some (PStr txt_customer_inn)
   \<and> map_of (customer_info (parse_header_info data customer_line)) ''address''
     = Some (PStr txt_customer_address)
   \<and> map_of (customer_info (parse_header_info data customer_line)) ''phone''
     = Some (PStr txt_customer_phone)"
  by (simp add: parse_header_info_def split_header_lines header_invoice_line header_customer_line
      update_conv')

section \<open>Exceptions of text mode\<close>

lemma strip_grouped_line: "strip grouped_storage_line = grouped_storage_line"
  by (simp add: grouped_storage_line_def strip_def char_defs)

lemma contains_grouped_line: "contains grouped_storage_line mk_storage"
  by (simp add: grouped_storage_line_def mk_storage_def starts_with_def)

lemma search_grouped_line:
  "re_search storage_re grouped_storage_line =
     Some \<lparr>whole = grouped_storage_line,
           caps = [(5, [50, 46, 55, 53, 48, 44, 48, 48]), (4, [49, 46, 49, 48, 48, 44, 48, 48]),
                   (3, [50, 44, 53, 48]), (2, txt_date_to), (1, txt_date_from)]\<rparr>"
  by (simp add: grouped_storage_line_def storage_re_def txt_date_to_def txt_date_from_def
      lit_defs char_defs text_defs re_defs)

lemma grouped_amounts:
  "amount [50, 44, 53, 48] = Inr (PFloat (5 / 2))"
  "amount [49, 46, 49, 48, 48, 44, 48, 48] = Inl ValueError"
  by (simp_all add: amount_def comma_to_dot_def py_float_def dec_val_def Let_def char_defs
      float_defs)

lemma grouped_line_raises: "parse_item_line data grouped_storage_line = Inl ValueError"
  by (simp add: parse_item_line_def strip_grouped_line contains_grouped_line search_grouped_line
      storage_item_def group_def grouped_amounts)

text \<open>
  Claim C1 says that the core never raises on malformed content and that
  \<open>_parse_line_items\<close> handles every line without raising. The source converts the
  captured amounts with \<open>float\<close> outside any \<open>try\<close>, while \<open>_parse_number\<close> and
  \<open>_parse_tables\<close> guard the same conversions. On the storage line with the amounts
  "1.100,00 R" and "2.750,00 R" the pattern matches, \<open>float("1.100.00")\<close> raises
  \<open>ValueError\<close>, and the exception leaves \<open>_parse_line_items\<close> and \<open>parse\<close>.
\<close>

theorem text_mode_raises_on_grouped_amount:
  "parse_line_items (new_parser now) grouped_storage_line = Inl ValueError
   \<and> parse (new_parser now) (Some grouped_doc) = Inl ValueError"
proof -
  have s: "split_on 10 grouped_storage_line = [grouped_storage_line]"
    by (simp add: grouped_storage_line_def)
  have s2: "split_on 10 (grouped_storage_line @ [10]) = [grouped_storage_line, []]"
    by (simp add: grouped_storage_line_def)
  have ne: "grouped_storage_line \<noteq> []"
    by (simp add: grouped_storage_line_def)
  have 1: "parse_line_items (new_parser now) grouped_storage_line = Inl ValueError"
    by (simp add: parse_line_items_def s grouped_line_raises)
  have 2: "parse (new_parser now) (Some grouped_doc) = Inl ValueError"
    by (simp add: parse_def grouped_doc_def extract_page_def ne Let_def parse_line_items_def s2
        grouped_line_raises)
  from 1 2 show ?thesis by simp
qed

section \<open>Totals\<close>

lemma has_key_update: "has_key (AList.update k v d) k' = (k' = k \<or> has_key d k')"
  by (simp add: has_key_def update_conv')

lemma set_total_keys:
  "set_total key data m = Inr d' \<Longrightarrow> has_key (totals d') k = (k = key \<or> has_key (totals data) k)"
  by (auto simp: set_total_def has_key_update split: sum.splits)

lemma set_items_total_keys:
  "set_items_total data m = Inr d' \<Longrightarrow>
   has_key (totals d') k = (k = ''total_items'' \<or> k = ''total_sum'' \<or> has_key (totals data) k)"
  by (auto simp: set_items_total_def has_key_update split: sum.splits)

lemma parse_total_line_keys:
  assumes "parse_total_line data raw = Inr d'"
  shows "has_key (totals d') k = (has_key (totals data) k \<or> line_sets_key k raw)"
proof -
  let ?line = "strip raw"
  consider (t) "contains ?line mk_total"
    | (v) "\<not> contains ?line mk_total" "contains ?line mk_vat"
    | (i) "\<not> contains ?line mk_total" "\<not> contains ?line mk_vat" "contains ?line mk_items"
    | (n) "\<not> contains ?line mk_total" "\<not> contains ?line mk_vat" "\<not> contains ?line mk_items"
    by blast
  then show ?thesis
  proof cases
    case t
    then have nf: "\<not> vat_fires raw" "\<not> items_fires raw"
      by (simp_all add: vat_fires_def items_fires_def)
    show ?thesis
    proof (cases "re_search (amount_re mk_total) ?line")
      case None
      with t assms nf show ?thesis by (auto simp: parse_total_line_def total_fires_def line_sets_key_def)
    next
      case (Some m)
      with t assms have "set_total ''total_amount'' data m = Inr d'"
        by (simp add: parse_total_line_def)
      from set_total_keys [OF this] t Some nf show ?thesis
        by (auto simp: total_fires_def line_sets_key_def)
    qed
  next
    case v
    then have nf: "\<not> total_fires raw" "\<not> items_fires raw"
      by (simp_all add: total_fires_def items_fires_def)
    show ?thesis
    proof (cases "re_search (amount_re mk_vat) ?line")
      case None
      with v assms nf show ?thesis by (auto simp: parse_total_line_def vat_fires_def line_sets_key_def)
    next
      case (Some m)
      with v assms have "set_total ''vat_amount'' data m = Inr d'"
        by (simp add: parse_total_line_def)
      from set_total_keys [OF this] v Some nf show ?thesis
        by (auto simp: vat_fires_def line_sets_key_def)
    qed
  next
    case i
    then have nf: "\<not> total_fires raw" "\<not> vat_fires raw"
      by (simp_all add: total_fires_def vat_fires_def)
    show ?thesis
    proof (cases "re_search items_re ?line")
      case None
      with i assms nf show ?thesis by (auto simp: parse_total_line_def items_fires_def line_sets_key_def)
    next
      case (Some m)
      with i assms have "set_items_total data m = Inr d'"
        by (simp add: parse_total_line_def)
      from set_items_total_keys [OF this] i Some nf show ?thesis
        by (auto simp: items_fires_def line_sets_key_def)
    qed
  next
    case n
    then have "\<not> total_fires raw" "\<not> vat_fires raw" "\<not> items_fires raw"
      by (simp_all add: total_fires_def vat_fires_def items_fires_def)
    with n assms show ?thesis by (auto simp: parse_total_line_def line_sets_key_def)
  qed
qed

lemma fold_total_lines_keys:
  "fold_exn parse_total_line data lines = Inr d' \<Longrightarrow>
   has_key (totals d') k = (has_key (totals data) k \<or> list_ex (line_sets_key k) lines)"
proof (induction lines arbitrary: data)
  case Nil
  then show ?case by simp
next
  case (Cons raw lines)
  from Cons.prems obtain d1 where
    d1: "parse_total_line data raw = Inr d1" and rest: "fold_exn parse_total_line d1 lines = Inr d'"
    by (auto split: sum.splits)
  have "has_key (totals d') k = (has_key (totals d1) k \<or> list_ex (line_sets_key k) lines)"
    by (rule Cons.IH [OF rest])
  also have "has_key (totals d1) k = (has_key (totals data) k \<or> line_sets_key k raw)"
    by (rule parse_total_line_keys [OF d1])
  finally show ?case by (simp add: disj_assoc)
qed

lemma line_sets_key_fields:
  "line_sets_key ''total_amount'' = total_fires" "line_sets_key ''vat_amount'' = vat_fires"
  "line_sets_key ''total_items'' = items_fires" "line_sets_key ''total_sum'' = items_fires"
  by (rule ext, simp add: line_sets_key_def)+

text \<open>
  Claim C7, amended. The three markers are tried in the order "Itogo k oplate:", "V tom
  chisle NDS:", "Vsego naimenovanii", one per line. When \<open>_parse_totals\<close> ends without an
  exception, a totals field is set exactly when it was set before or some line holds the
  field's marker, holds no marker earlier in that order, and the field's pattern matches
  on that line. Markers on other lines do not matter.
\<close>

theorem totals_fields_set:
  assumes "parse_totals data text = Inr d'"
  shows "has_key (totals d') ''total_amount''
           = (has_key (totals data) ''total_amount'' \<or> list_ex total_fires (split_on 10 text))
       \<and> has_key (totals d') ''vat_amount''
           = (has_key (totals data) ''vat_amount'' \<or> list_ex vat_fires (split_on 10 text))
       \<and> has_key (totals d') ''total_items''
           = (has_key (totals data) ''total_items'' \<or> list_ex items_fires (split_on 10 text))
       \<and> has_key (totals d') ''total_sum''
           = (has_key (totals data) ''total_sum'' \<or> list_ex items_fires (split_on 10 text))"
proof -
  from assms have f: "fold_exn parse_total_line data (split_on 10 text) = Inr d'"
    by (simp add: parse_totals_def)
  show ?thesis
    using fold_total_lines_keys [OF f, of "''total_amount''"]
      fold_total_lines_keys [OF f, of "''vat_amount''"]
      fold_total_lines_keys [OF f, of "''total_items''"]
      fold_total_lines_keys [OF f, of "''total_sum''"]
    by (simp add: line_sets_key_fields)
qed

lemma strip_both_totals: "strip both_totals_line = both_totals_line"
  by (simp add: both_totals_line_def strip_def char_defs)

lemma split_both_totals: "split_on 10 both_totals_line = [both_totals_line]"
  by (simp add: both_totals_line_def)

lemma contains_both_totals:
  "contains both_totals_line mk_total" "contains both_totals_line mk_vat"
  by (simp_all add: both_totals_line_def mk_total_def mk_vat_def starts_with_def)

lemma search_both_totals:
  "re_search (amount_re mk_total) both_totals_line =
     Some \<lparr>whole = take 24 both_totals_line, caps = [(1, [49, 48, 48, 44, 48, 48])]\<rparr>"
  "re_search (amount_re mk_vat) both_totals_line =
     Some \<lparr>whole = drop 25 both_totals_line, caps = [(1, [50, 48, 44, 48, 48])]\<rparr>"
  by (simp_all add: both_totals_line_def amount_re_def lit_defs char_defs text_defs re_defs)

lemma both_totals_result:
  "parse_totals (new_parser []) both_totals_line
     = Inr ((new_parser [])\<lparr>totals := [(''total_amount'', PFloat 100)]\<rparr>)"
  by (simp add: parse_totals_def split_both_totals parse_total_line_def strip_both_totals
      contains_both_totals search_both_totals set_total_def group_def storage_amounts new_parser_def)

lemma both_totals_fires:
  "list_ex total_fires (split_on 10 both_totals_line)"
  "\<not> list_ex vat_fires (split_on 10 both_totals_line)"
  "\<not> list_ex items_fires (split_on 10 both_totals_line)"
  by (simp_all add: split_both_totals total_fires_def vat_fires_def items_fires_def
      strip_both_totals contains_both_totals search_both_totals)

text \<open>
  Claim C7, as stated, fails: on the line "Itogo k oplate: 100,00 R V tom chisle NDS: 20,00
  R" the VAT marker is present and the VAT pattern matches, yet only \<open>total_amount\<close> is
  set, because the VAT test is an \<open>elif\<close> of the total test.
\<close>

theorem totals_same_line_counterexample:
  "marker_fires mk_vat (amount_re mk_vat) (split_on 10 both_totals_line)
   \<and> parse_totals (new_parser []) both_totals_line
       = Inr ((new_parser [])\<lparr>totals := [(''total_amount'', PFloat 100)]\<rparr>)
   \<and> \<not> has_key [(''total_amount'', PFloat 100)] ''vat_amount''"
  by (simp add: both_totals_result marker_fires_def split_both_totals strip_both_totals
      contains_both_totals search_both_totals has_key_def)

theorem totals_fields_set_witness:
  "parse_totals (new_parser []) both_totals_line
       = Inr ((new_parser [])\<lparr>totals := [(''total_amount'', PFloat 100)]\<rparr>)
   \<and> list_ex total_fires (split_on 10 both_totals_line)
   \<and> \<not> list_ex vat_fires (split_on 10 both_totals_line)
   \<and> \<not> list_ex items_fires (split_on 10 both_totals_line)
   \<and> has_key (totals ((new_parser [])\<lparr>totals := [(''total_amount'', PFloat 100)]\<rparr>)) ''total_amount''
   \<and> \<not> has_key (totals ((new_parser [])\<lparr>totals := [(''total_amount'', PFloat 100)]\<rparr>)) ''vat_amount''"
  using totals_fields_set [OF both_totals_result] both_totals_result both_totals_fires
  by (simp add: has_key_def)

section \<open>The pipeline\<close>

text \<open>Each stage only appends to \<open>line_items\<close>, and what it appends does not depend on the
  result so far; no stage reads or writes \<open>parsed_at\<close>.\<close>

lemma add_items_simps:
  "add_items d [] = d" "add_items (add_items d a) b = add_items d (a @ b)"
  "line_items (add_items d a) = line_items d @ a"
  "add_items (d\<lparr>parsed_at := t\<rparr>) a = (add_items d a)\<lparr>parsed_at := t\<rparr>"
  by (simp_all add: add_items_def)

lemma parse_row_frame: "parse_row d row = add_items d (row_items row)"
  by (simp add: parse_row_eq row_items_def append_item_def add_items_def new_parser_def)

lemma fold_rows_frame: "foldl parse_row d rows = add_items d (concat (map row_items rows))"
  by (induction rows arbitrary: d) (simp_all add: add_items_simps parse_row_frame)

lemma parse_tables_frame:
  "parse_tables d tables = add_items d (concat (map row_items (concat tables)))"
  unfolding parse_tables_def
  by (induction tables arbitrary: d) (simp_all add: add_items_simps fold_rows_frame)

lemma table_items_eq: "table_items tables = concat (map row_items (concat tables))"
  by (simp add: table_items_def parse_tables_frame add_items_simps new_parser_def)

lemma parse_tables_items: "parse_tables d tables = add_items d (table_items tables)"
  by (simp add: parse_tables_frame table_items_eq)

lemma table_items_append: "table_items (a @ b) = table_items a @ table_items b"
  by (simp add: table_items_eq)

lemma table_items_Nil: "table_items [] = []"
  by (simp add: table_items_eq)

lemma extract_page_frame:
  "extract_page (tx, d) pg = (tx @ doc_text [pg], add_items d (table_items (page_tables pg)))"
  by (simp add: extract_page_def doc_text_def Let_def parse_tables_items table_items_Nil
      add_items_simps)

lemma doc_text_Cons: "doc_text (pg # pages) = doc_text [pg] @ doc_text pages"
  by (simp add: doc_text_def)

lemma doc_tables_Cons: "doc_tables (pg # pages) = page_tables pg @ doc_tables pages"
  by (simp add: doc_tables_def)

lemma extract_pages_frame:
  "foldl extract_page (tx, d) pages
     = (tx @ doc_text pages, add_items d (table_items (doc_tables pages)))"
proof (induction pages arbitrary: tx d)
  case Nil
  then show ?case by (simp add: doc_text_def doc_tables_def table_items_Nil add_items_simps)
next
  case (Cons pg pages)
  have "foldl extract_page (tx, d) (pg # pages)
      = foldl extract_page (tx @ doc_text [pg], add_items d (table_items (page_tables pg))) pages"
    by (simp add: extract_page_frame)
  also have "\<dots> = ((tx @ doc_text [pg]) @ doc_text pages,
      add_items (add_items d (table_items (page_tables pg))) (table_items (doc_tables pages)))"
    by (rule Cons.IH)
  finally show ?case
    by (simp add: doc_text_Cons [of pg pages] doc_tables_Cons table_items_append add_items_simps)
qed


lemma header_line_time:
  "parse_header_line (d\<lparr>parsed_at := t\<rparr>) raw = (parse_header_line d raw)\<lparr>parsed_at := t\<rparr>"
  by (simp add: parse_header_line_def Let_def split: option.splits)


lemma header_time:
  "parse_header_info (d\<lparr>parsed_at := t\<rparr>) text = (parse_header_info d text)\<lparr>parsed_at := t\<rparr>"
proof -
  have "foldl parse_header_line (d\<lparr>parsed_at := t\<rparr>) lines
        = (foldl parse_header_line d lines)\<lparr>parsed_at := t\<rparr>" for lines
    by (induction lines arbitrary: d) (simp_all add: header_line_time)
  then show ?thesis by (simp add: parse_header_info_def)
qed

lemma item_line_frame:
  "parse_item_line d raw = on_result (add_items d) (items_of_line raw)"
  by (simp add: items_of_line_def parse_item_line_def storage_item_def reception_item_def
      shipment_item_def recop_item_def append_item_def add_items_def new_parser_def Let_def
      split: option.splits sum.splits)

lemma item_lines_frame:
  "fold_exn parse_item_line d lines = on_result (add_items d) (items_of_lines lines)"
proof (induction lines arbitrary: d)
  case Nil
  then show ?case by (simp add: add_items_simps)
next
  case (Cons raw lines)
  show ?case
  proof (cases "items_of_line raw")
    case (Inl e)
    then show ?thesis by (simp add: item_line_frame)
  next
    case (Inr a)
    then have "fold_exn parse_item_line d (raw # lines)
        = on_result (add_items (add_items d a)) (items_of_lines lines)"
      by (simp add: item_line_frame Cons.IH)
    with Inr show ?thesis
      by (cases "items_of_lines lines") (simp_all add: add_items_simps)
  qed
qed

lemma parse_line_items_frame:
  "parse_line_items d text = on_result (add_items d) (items_of_lines (split_on 10 text))"
  by (simp add: parse_line_items_def item_lines_frame)



lemma fold_exn_commutes:
  assumes "\<And>s x. f (g s) x = on_result g (f s x)"
  shows "fold_exn f (g s) xs = on_result g (fold_exn f s xs)"
proof (induction xs arbitrary: s)
  case Nil
  then show ?case by simp
next
  case (Cons x xs)
  show ?case
    by (cases "f s x") (simp_all add: assms Cons.IH)
qed


lemma total_line_time:
  "parse_total_line (d\<lparr>parsed_at := t\<rparr>) raw
     = on_result (\<lambda>r. r\<lparr>parsed_at := t\<rparr>) (parse_total_line d raw)"
  by (simp add: parse_total_line_def set_total_def set_items_total_def Let_def
      split: option.splits sum.splits)


lemma totals_time:
  "parse_totals (d\<lparr>parsed_at := t\<rparr>) text
     = on_result (\<lambda>r. r\<lparr>parsed_at := t\<rparr>) (parse_totals d text)"
  unfolding parse_totals_def
  by (rule fold_exn_commutes [of parse_total_line "\<lambda>r. r\<lparr>parsed_at := t\<rparr>"])
     (rule total_line_time)

lemma parse_unfold:
  "parse d (Some pages) =
     (case items_of_lines (split_on 10 (doc_text pages)) of
        Inl e \<Rightarrow> Inl e
      | Inr its \<Rightarrow>
          parse_totals
            (add_items (parse_header_info (add_items d (table_items (doc_tables pages)))
                          (doc_text pages)) its)
            (doc_text pages))"
  by (cases "items_of_lines (split_on 10 (doc_text pages))")
     (simp_all add: parse_def Let_def extract_pages_frame parse_line_items_frame)


lemma parse_time:
  "parse (d\<lparr>parsed_at := t\<rparr>) doc = on_result (\<lambda>r. r\<lparr>parsed_at := t\<rparr>) (parse d doc)"
proof (cases doc)
  case None
  then show ?thesis by (simp add: parse_def)
next
  case (Some pages)
  show ?thesis
    unfolding Some parse_unfold
    by (cases "items_of_lines (split_on 10 (doc_text pages))")
       (simp_all add: add_items_simps header_time totals_time)
qed

text \<open>
  Claim C9. Two runs of a fresh parser on the same document, started at any two
  times, end alike (with the same exception, or with results that agree in every field
  but \<open>parsed_at\<close>).
\<close>

theorem parse_deterministic:
  "on_result forget_time (parse (new_parser t1) doc)
     = on_result forget_time (parse (new_parser t2) doc)"
proof -
  have n: "new_parser t = (new_parser [])\<lparr>parsed_at := t\<rparr>" for t
    by (simp add: new_parser_def)
  have f: "on_result forget_time (on_result (\<lambda>r. r\<lparr>parsed_at := t\<rparr>) x)
           = on_result forget_time x" for t and x :: "exn + pdata"
    by (cases x) (simp_all add: forget_time_def)
  show ?thesis
    by (simp only: n [of t1] n [of t2] parse_time f)
qed

section \<open>The document with the same charge in text and table\<close>











end
